theory Spec2Isabelle
  imports Main "HOL-Library.Word"
begin

section \<open>hdls: a language server for HDL (main.go)\<close>

text \<open>
  The development follows \<^verbatim>\<open>main.go\<close>: the position translator \<^verbatim>\<open>getByteOffset\<close>,
  the URI and path helpers, the catalog collector \<^verbatim>\<open>collectChips\<close>, the diagnostic walk
  of \<^verbatim>\<open>publishDiagnostics\<close> and the three handlers registered in \<^verbatim>\<open>main\<close>.
  Go strings and byte slices are \<^typ>\<open>string\<close> (lists of 8-bit characters), Go's \<^verbatim>\<open>int\<close>
  is \<^typ>\<open>int\<close>, \<^verbatim>\<open>uint\<close> is a 64-bit word. A returned \<^verbatim>\<open>error\<close> and a run-time panic
  are both values of the type \<open>err\<close>, told apart by \<open>is_panic\<close>.
\<close>

subsection \<open>Errors\<close>

datatype errno = ENOENT | EACCES | EIO

datatype err =
    PathError string errno
  | Wrapped string err
  | EscapeError string
  | TransportError
  | PanicIndexOutOfRange
  | PanicSliceBounds
  | PanicNilDereference
  | PanicTypeAssertion

fun is_panic :: "err \<Rightarrow> bool" where
  "is_panic PanicIndexOutOfRange = True"
| "is_panic PanicSliceBounds = True"
| "is_panic PanicNilDereference = True"
| "is_panic PanicTypeAssertion = True"
| "is_panic _ = False"

text \<open>\<^verbatim>\<open>errors.Is(err, os.ErrNotExist)\<close>: follows the \<^verbatim>\<open>%w\<close> chain.\<close>

fun is_not_exist :: "err \<Rightarrow> bool" where
  "is_not_exist (PathError p e) = (e = ENOENT)"
| "is_not_exist (Wrapped m e) = is_not_exist e"
| "is_not_exist _ = False"

subsection \<open>The package \<^verbatim>\<open>strings\<close>\<close>

definition newline :: char where
  "newline = CHR 0x0A"

text \<open>\<^verbatim>\<open>strings.Split(s, sep)\<close> for a one-byte separator: one more piece than separators.\<close>

fun Split :: "string \<Rightarrow> char \<Rightarrow> string list" where
  "Split [] sep = [[]]"
| "Split (c # cs) sep =
     (if c = sep then [] # Split cs sep
      else (case Split cs sep of [] \<Rightarrow> [[c]] | l # ls \<Rightarrow> (c # l) # ls))"

fun HasPrefix :: "string \<Rightarrow> string \<Rightarrow> bool" where
  "HasPrefix s [] = True"
| "HasPrefix [] (p # ps) = False"
| "HasPrefix (c # cs) (p # ps) = (c = p \<and> HasPrefix cs ps)"

definition TrimPrefix :: "string \<Rightarrow> string \<Rightarrow> string" where
  "TrimPrefix s prefix = (if HasPrefix s prefix then drop (length prefix) s else s)"

definition HasSuffix :: "string \<Rightarrow> string \<Rightarrow> bool" where
  "HasSuffix s suffix = HasPrefix (rev s) (rev suffix)"

definition TrimSuffix :: "string \<Rightarrow> string \<Rightarrow> string" where
  "TrimSuffix s suffix =
     (if HasSuffix s suffix then take (length s - length suffix) s else s)"

text \<open>
  \<^verbatim>\<open>strings.TrimSpace\<close> removes leading and trailing Unicode White_Space. On UTF-8
  bytes these are the six ASCII characters and the encodings of U+0085, U+00A0, U+1680,
  U+2000 to U+200A, U+2028, U+2029, U+202F, U+205F and U+3000.
\<close>

definition ascii_space :: "char \<Rightarrow> bool" where
  "ascii_space c = (c = CHR 0x09 \<or> c = CHR 0x0A \<or> c = CHR 0x0B \<or> c = CHR 0x0C
                    \<or> c = CHR 0x0D \<or> c = CHR 0x20)"

definition utf8_spaces :: "string list" where
  "utf8_spaces =
     [[CHR 0xC2, CHR 0x85], [CHR 0xC2, CHR 0xA0], [CHR 0xE1, CHR 0x9A, CHR 0x80],
      [CHR 0xE2, CHR 0x80, CHR 0x80], [CHR 0xE2, CHR 0x80, CHR 0x81],
      [CHR 0xE2, CHR 0x80, CHR 0x82], [CHR 0xE2, CHR 0x80, CHR 0x83],
      [CHR 0xE2, CHR 0x80, CHR 0x84], [CHR 0xE2, CHR 0x80, CHR 0x85],
      [CHR 0xE2, CHR 0x80, CHR 0x86], [CHR 0xE2, CHR 0x80, CHR 0x87],
      [CHR 0xE2, CHR 0x80, CHR 0x88], [CHR 0xE2, CHR 0x80, CHR 0x89],
      [CHR 0xE2, CHR 0x80, CHR 0x8A], [CHR 0xE2, CHR 0x80, CHR 0xA8],
      [CHR 0xE2, CHR 0x80, CHR 0xA9], [CHR 0xE2, CHR 0x80, CHR 0xAF],
      [CHR 0xE2, CHR 0x81, CHR 0x9F], [CHR 0xE3, CHR 0x80, CHR 0x80]]"

text \<open>The number of bytes of the white-space rune that \<open>s\<close> starts with, 0 if none.\<close>

definition space_width :: "string list \<Rightarrow> string \<Rightarrow> nat" where
  "space_width encodings s =
     (case s of
        [] \<Rightarrow> 0
      | c # cs \<Rightarrow>
          if ascii_space c then 1
          else (case filter (HasPrefix s) encodings of [] \<Rightarrow> 0 | e # es \<Rightarrow> length e))"

function TrimLeft :: "string list \<Rightarrow> string \<Rightarrow> string" where
  "TrimLeft encodings s =
     (if space_width encodings s = 0 \<or> length s < space_width encodings s then s
      else TrimLeft encodings (drop (space_width encodings s) s))"
  by pat_completeness auto
termination
  by (relation "measure (\<lambda>(encodings, s). length s)") auto

declare TrimLeft.simps [simp del]

definition TrimSpace :: "string \<Rightarrow> string" where
  "TrimSpace s =
     rev (TrimLeft (map rev utf8_spaces) (rev (TrimLeft utf8_spaces s)))"

subsection \<open>The position translator\<close>

text \<open>
  The loop \<^verbatim>\<open>for i := 0; i < line; i++ { offset += len(lines[i]) + 1 }\<close>; an index
  outside \<^verbatim>\<open>lines\<close> panics.
\<close>

function offset_loop :: "string list \<Rightarrow> int \<Rightarrow> int \<Rightarrow> int \<Rightarrow> err + int" where
  "offset_loop lines line i offset =
     (if i < line then
        (if 0 \<le> i \<and> i < int (length lines)
         then offset_loop lines line (i + 1) (offset + (int (length (lines ! nat i)) + 1))
         else Inl PanicIndexOutOfRange)
      else Inr offset)"
  by pat_completeness auto
termination
  by (relation "measure (\<lambda>(lines, line, i, offset). nat (line - i))") auto

declare offset_loop.simps [simp del]

text \<open>
  \<^verbatim>\<open>getByteOffset\<close>: the guard \<^verbatim>\<open>line > len(lines)\<close>, the loop, then
  \<^verbatim>\<open>lines[line][:char]\<close>, where the index panics outside \<^verbatim>\<open>lines\<close> and the slice
  panics unless \<^verbatim>\<open>0 <= char <= len(lines[line])\<close>.
\<close>

definition getByteOffset :: "string \<Rightarrow> int \<Rightarrow> int \<Rightarrow> err + int" where
  "getByteOffset text line char =
     (let lines = Split text newline in
      if line > int (length lines) then Inr (int (length text))
      else
        (case offset_loop lines line 0 0 of
           Inl e \<Rightarrow> Inl e
         | Inr offset \<Rightarrow>
             if line < 0 \<or> int (length lines) \<le> line then Inl PanicIndexOutOfRange
             else if char < 0 \<or> int (length (lines ! nat line)) < char
             then Inl PanicSliceBounds
             else Inr (offset + int (length (take (nat char) (lines ! nat line))))))"

subsection \<open>The packages \<^verbatim>\<open>net/url\<close> and \<^verbatim>\<open>path/filepath\<close> (Unix)\<close>

definition ishex :: "char \<Rightarrow> bool" where
  "ishex c =
     (let n = (of_char c :: nat)
      in (48 \<le> n \<and> n \<le> 57) \<or> (97 \<le> n \<and> n \<le> 102) \<or> (65 \<le> n \<and> n \<le> 70))"

definition unhex :: "char \<Rightarrow> nat" where
  "unhex c =
     (let n = (of_char c :: nat)
      in if 48 \<le> n \<and> n \<le> 57 then n - 48
         else if 97 \<le> n \<and> n \<le> 102 then n - 97 + 10
         else if 65 \<le> n \<and> n \<le> 70 then n - 65 + 10
         else 0)"

text \<open>
  \<^verbatim>\<open>url.QueryUnescape\<close>: \<^verbatim>\<open>%XX\<close> becomes the byte \<open>XX\<close>, \<^verbatim>\<open>+\<close> becomes a space,
  and a \<^verbatim>\<open>%\<close> not followed by two hexadecimal digits is an \<^verbatim>\<open>EscapeError\<close>
  carrying at most three bytes from the \<^verbatim>\<open>%\<close> on.
\<close>

fun QueryUnescape :: "string \<Rightarrow> err + string" where
  "QueryUnescape [] = Inr []"
| "QueryUnescape (c # cs) =
     (if c = CHR ''%'' then
        (case cs of
           h1 # h2 # rest \<Rightarrow>
             if ishex h1 \<and> ishex h2 then
               (case QueryUnescape rest of
                  Inl e \<Rightarrow> Inl e
                | Inr t \<Rightarrow> Inr (char_of (unhex h1 * 16 + unhex h2) # t))
             else Inl (EscapeError (take 3 (c # cs)))
         | _ \<Rightarrow> Inl (EscapeError (take 3 (c # cs))))
      else
        (case QueryUnescape cs of
           Inl e \<Rightarrow> Inl e
         | Inr t \<Rightarrow> Inr ((if c = CHR ''+'' then CHR '' '' else c) # t)))"




definition separator :: char where
  "separator = CHR ''/''"

text \<open>\<^verbatim>\<open>strings.Join(elems, "/")\<close>.\<close>

fun join_sep :: "string list \<Rightarrow> string" where
  "join_sep [] = []"
| "join_sep [e] = e"
| "join_sep (e # es) = e @ separator # join_sep es"

text \<open>
  \<^verbatim>\<open>filepath.Clean\<close> on the path's elements: empty and \<^verbatim>\<open>.\<close> elements go, a
  \<^verbatim>\<open>..\<close> removes the element before it unless that is itself \<^verbatim>\<open>..\<close>, and a
  \<^verbatim>\<open>..\<close> at the root goes. \<open>out\<close> is the result so far, last element first.
\<close>

fun clean_elems :: "bool \<Rightarrow> string list \<Rightarrow> string list \<Rightarrow> string list" where
  "clean_elems rooted out [] = rev out"
| "clean_elems rooted out (e # es) =
     (if e = [] \<or> e = ''.'' then clean_elems rooted out es
      else if e = ''..'' then
        (case out of
           [] \<Rightarrow> if rooted then clean_elems rooted out es
                 else clean_elems rooted [''..''] es
         | t # ts \<Rightarrow>
             if t = ''..'' then clean_elems rooted (''..'' # out) es
             else clean_elems rooted ts es)
      else clean_elems rooted (e # out) es)"

definition Clean :: "string \<Rightarrow> string" where
  "Clean path =
     (case path of
        [] \<Rightarrow> ''.''
      | c # cs \<Rightarrow>
          (let rooted = (c = separator);
               body = join_sep (clean_elems rooted [] (Split path separator))
           in if rooted then separator # body
              else if body = [] then ''.'' else body))"

text \<open>\<^verbatim>\<open>filepath.Join\<close>: leading empty elements are skipped, the rest joined and cleaned.\<close>

fun Join :: "string list \<Rightarrow> string" where
  "Join [] = []"
| "Join (e # es) = (if e = [] then Join es else Clean (join_sep (e # es)))"

text \<open>\<^verbatim>\<open>filepath.Dir\<close>: all but the last element, cleaned.\<close>

definition Dir :: "string \<Rightarrow> string" where
  "Dir path = Clean (rev (dropWhile (\<lambda>c. c \<noteq> separator) (rev path)))"

text \<open>\<^verbatim>\<open>filepath.Base\<close>: the last element, trailing separators removed first.\<close>

definition Base :: "string \<Rightarrow> string" where
  "Base path =
     (if path = [] then ''.''
      else
        (let p = dropWhile (\<lambda>c. c = separator) (rev path);
             b = rev (takeWhile (\<lambda>c. c \<noteq> separator) p)
         in if b = [] then [separator] else b))"

text \<open>\<^verbatim>\<open>filepath.Ext\<close>: the suffix from the final dot of the last element, or empty.\<close>

definition Ext :: "string \<Rightarrow> string" where
  "Ext path =
     (let last_elem = takeWhile (\<lambda>c. c \<noteq> separator) (rev path)
      in if CHR ''.'' \<in> set last_elem
         then CHR ''.'' # rev (takeWhile (\<lambda>c. c \<noteq> CHR ''.'') last_elem)
         else [])"

subsection \<open>URIs and directories\<close>

definition ext :: string where
  "ext = ''.hdl''"

definition nodeKindChipDefinition :: string where
  "nodeKindChipDefinition = ''chip_definition''"

definition nodeKindPart :: string where
  "nodeKindPart = ''part''"

text \<open>\<^verbatim>\<open>toFilePath\<close>: the error of \<^verbatim>\<open>QueryUnescape\<close> is dropped, its string is then empty.\<close>

definition toFilePath :: "string \<Rightarrow> string" where
  "toFilePath uri =
     (let enEscapeUrl = (case QueryUnescape (TrimSpace uri) of Inl e \<Rightarrow> [] | Inr s \<Rightarrow> s)
      in TrimPrefix enEscapeUrl ''file:'')"

definition baseDir :: "string \<Rightarrow> string" where
  "baseDir uri = Dir (toFilePath uri)"

definition builtInChipsDir :: "string \<Rightarrow> string" where
  "builtInChipsDir uri =
     (let baseDir0 = Join [baseDir uri, ''..'', ''..''];
          baseDir1 = Clean baseDir0
      in Join [baseDir1, ''tools'', ''builtInChips''])"

subsection \<open>Results that may fail\<close>

definition bind :: "err + 'a \<Rightarrow> ('a \<Rightarrow> err + 'b) \<Rightarrow> err + 'b" where
  "bind m f = (case m of Inl e \<Rightarrow> Inl e | Inr x \<Rightarrow> f x)"

text \<open>The slice expression \<^verbatim>\<open>source[a:b]\<close> of a byte slice of length \<open>length source\<close>.\<close>

type_synonym uint = "64 word"

definition slice_bytes :: "string \<Rightarrow> uint \<Rightarrow> uint \<Rightarrow> err + string" where
  "slice_bytes source a b =
     (if unat a \<le> unat b \<and> unat b \<le> length source
      then Inr (take (unat b - unat a) (drop (unat a) source))
      else Inl PanicSliceBounds)"

subsection \<open>Syntax trees (the tree-sitter binding)\<close>

text \<open>
  The parser is a black box that turns bytes into a tree. A node of the tree carries what
  the binding's methods read: \<^verbatim>\<open>Kind\<close>, \<^verbatim>\<open>IsNamed\<close>, \<^verbatim>\<open>IsError\<close>, the field name
  under which its parent holds it, its byte range, its start and end points and its
  children. The children are the visible nodes, named and anonymous, in source order. A
  method that returns a nil node returns \<open>None\<close>.
\<close>

record Point =
  Row :: uint
  Column :: uint

datatype Node =
  Node (Kind: string) (IsNamed: bool) (IsError: bool) (Field: "string option")
       (StartByte: uint) (EndByte: uint) (StartPosition: Point) (EndPosition: Point)
       (Children: "Node list")

definition ChildByFieldName :: "Node \<Rightarrow> string \<Rightarrow> Node option" where
  "ChildByFieldName n name = find (\<lambda>c. Field c = Some name) (Children n)"

definition Child :: "Node \<Rightarrow> nat \<Rightarrow> Node option" where
  "Child n i = (if i < length (Children n) then Some (Children n ! i) else None)"

text \<open>
  \<^verbatim>\<open>DescendantForByteRange(s, e)\<close> goes down from the node: among the children, the
  first whose end reaches \<open>e\<close> and lies beyond \<open>s\<close> is entered if it starts at or before
  \<open>s\<close>; otherwise the descent stops. The result here is the path of nodes entered,
  deepest first, so that \<^verbatim>\<open>Parent()\<close> of the descendant is the second node of the path.
\<close>

fun descend :: "Node list \<Rightarrow> Node \<Rightarrow> uint \<Rightarrow> uint \<Rightarrow> Node list"
  and descend_children :: "Node list \<Rightarrow> Node list \<Rightarrow> uint \<Rightarrow> uint \<Rightarrow> Node list" where
  "descend path (Node k nm er f sb eb sp ep cs) s e =
     descend_children (Node k nm er f sb eb sp ep cs # path) cs s e"
| "descend_children path [] s e = path"
| "descend_children path (c # cs) s e =
     (if EndByte c < e \<or> EndByte c \<le> s then descend_children path cs s e
      else if s < StartByte c then path
      else descend path c s e)"

definition DescendantForByteRange :: "Node \<Rightarrow> uint \<Rightarrow> uint \<Rightarrow> Node list" where
  "DescendantForByteRange root s e = descend [] root s e"

definition Parent :: "Node list \<Rightarrow> Node option" where
  "Parent path = (case path of n # p # rest \<Rightarrow> Some p | _ \<Rightarrow> None)"

subsection \<open>Protocol types\<close>

record Position =
  Line :: uint
  Character :: uint

record Range =
  Start :: Position
  End :: Position

record Diagnostic =
  Range :: Range
  Severity :: nat
  Message :: string

record PublishDiagnosticsParams =
  Uri :: string
  Version :: int
  Diagnostics :: "Diagnostic list"

record LocationLink =
  TargetUri :: string
  TargetRange :: Range
  TargetSelectionRange :: Range

definition DiagnosticSeverityError :: nat where
  "DiagnosticSeverityError = 1"

text \<open>\<^verbatim>\<open>newDiagnostic\<close> reads the node's points; on a nil node that is a nil dereference.\<close>

definition newDiagnostic :: "Node option \<Rightarrow> string \<Rightarrow> err + Diagnostic" where
  "newDiagnostic n msg =
     (case n of
        None \<Rightarrow> Inl PanicNilDereference
      | Some nd \<Rightarrow>
          Inr \<lparr>Range = \<lparr>Start = \<lparr>Line = Row (StartPosition nd),
                                   Character = Column (StartPosition nd)\<rparr>,
                         End = \<lparr>Line = Row (EndPosition nd),
                                 Character = Column (EndPosition nd)\<rparr>\<rparr>,
               Severity = DiagnosticSeverityError,
               Message = msg\<rparr>)"

subsection \<open>The world outside: files, directories, parser, transport\<close>

text \<open>
  A directory tree as \<^verbatim>\<open>filepath.WalkDir\<close> meets it: an entry that is not a
  directory, a directory with its entries in the order \<^verbatim>\<open>os.ReadDir\<close> lists them, or a
  directory that cannot be read. \<open>Lstat\<close> gives the tree below a root, or the error of
  \<^verbatim>\<open>os.Lstat\<close> on the root; \<open>Stat\<close> and \<open>ReadFile\<close> are \<^verbatim>\<open>os.Stat\<close> and
  \<^verbatim>\<open>os.ReadFile\<close>. The three are independent, so that nothing proved below relies on the
  files staying as they are between two calls.
\<close>

datatype dirent = RegularFile | Directory "(string \<times> dirent) list" | Unreadable errno

record world =
  ReadFile :: "string \<Rightarrow> err + string"
  Stat :: "string \<Rightarrow> err option"
  Lstat :: "string \<Rightarrow> errno + dirent"
  Parse :: "string \<Rightarrow> Node"
  SendNotification :: "PublishDiagnosticsParams \<Rightarrow> err option"

definition readFile :: "world \<Rightarrow> string \<Rightarrow> err + string" where
  "readFile w uri = ReadFile w (toFilePath uri)"

text \<open>
  \<^verbatim>\<open>filepath.WalkDir\<close> with a callback that threads a state: the callback gets the path,
  the entry (\<open>None\<close> for nil, else whether it is a directory) and an error, and the walk
  stops at the first error the callback returns. A directory is announced, then read; a
  failed read is reported to the callback in a second call.
\<close>

type_synonym 's WalkDirFunc = "string \<Rightarrow> bool option \<Rightarrow> err option \<Rightarrow> 's \<Rightarrow> err option \<times> 's"

fun walkDir :: "'s WalkDirFunc \<Rightarrow> string \<Rightarrow> dirent \<Rightarrow> 's \<Rightarrow> err option \<times> 's"
  and walkEntries :: "'s WalkDirFunc \<Rightarrow> string \<Rightarrow> (string \<times> dirent) list \<Rightarrow> 's \<Rightarrow> err option \<times> 's"
  where
  "walkDir fn path RegularFile s = fn path (Some False) None s"
| "walkDir fn path (Unreadable e) s =
     (case fn path (Some True) None s of
        (Some er, s') \<Rightarrow> (Some er, s')
      | (None, s') \<Rightarrow> fn path (Some True) (Some (PathError path e)) s')"
| "walkDir fn path (Directory entries) s =
     (case fn path (Some True) None s of
        (Some er, s') \<Rightarrow> (Some er, s')
      | (None, s') \<Rightarrow> walkEntries fn path entries s')"
| "walkEntries fn path [] s = (None, s)"
| "walkEntries fn path (entry # rest) s =
     (case walkDir fn (Join [path, fst entry]) (snd entry) s of
        (Some er, s') \<Rightarrow> (Some er, s')
      | (None, s') \<Rightarrow> walkEntries fn path rest s')"

definition WalkDir :: "world \<Rightarrow> string \<Rightarrow> 's WalkDirFunc \<Rightarrow> 's \<Rightarrow> err option \<times> 's" where
  "WalkDir w root fn s =
     (case Lstat w root of
        Inl e \<Rightarrow> fn root None (Some (PathError root e)) s
      | Inr d \<Rightarrow> walkDir fn root d s)"

text \<open>
  When a walk that only passes errors on fails: the root cannot be examined, or a
  directory below it cannot be read.
\<close>

fun readable :: "dirent \<Rightarrow> bool"
  and readable_entries :: "(string \<times> dirent) list \<Rightarrow> bool" where
  "readable RegularFile = True"
| "readable (Unreadable e) = False"
| "readable (Directory entries) = readable_entries entries"
| "readable_entries [] = True"
| "readable_entries (entry # rest) = (readable (snd entry) \<and> readable_entries rest)"

definition walk_fails :: "world \<Rightarrow> string \<Rightarrow> bool" where
  "walk_fails w root = (case Lstat w root of Inl e \<Rightarrow> True | Inr d \<Rightarrow> \<not> readable d)"

subsection \<open>The catalog collector\<close>

text \<open>The callback of \<^verbatim>\<open>collectChips\<close>; \<open>chips\<close> is the map it writes to, as a set of keys.\<close>

definition collect_fn :: "string set WalkDirFunc" where
  "collect_fn path d er chips =
     (case er of
        Some e \<Rightarrow> (Some e, chips)
      | None \<Rightarrow>
          (case d of
             None \<Rightarrow> (Some PanicNilDereference, chips)
           | Some is_dir \<Rightarrow>
               if \<not> is_dir \<and> Ext path = ext
               then (None, insert (TrimSuffix (Base path) ext) chips)
               else (None, chips)))"

definition collectChips :: "world \<Rightarrow> string \<Rightarrow> string set \<Rightarrow> err option \<times> string set" where
  "collectChips w dir chips =
     (case WalkDir w dir collect_fn chips of
        (Some e, chips') \<Rightarrow> (Some (Wrapped ''error walking dir'' e), chips')
      | (None, chips') \<Rightarrow> (None, chips'))"

subsection \<open>The diagnostic walk of \<^verbatim>\<open>publishDiagnostics\<close>\<close>

text \<open>
  The walk's variables: \<^verbatim>\<open>implementingChipName\<close> and \<^verbatim>\<open>diagnostics\<close>. A panic ends
  the walk and nothing is kept.
\<close>

type_synonym walk_vars = "string \<times> Diagnostic list"

definition msg_self :: "string \<Rightarrow> string" where
  "msg_self chipName = ''Cannot use chip '' @ chipName @ '' to implement itself''"

definition msg_undefined :: "string \<Rightarrow> string" where
  "msg_undefined chipName = ''Undefined chip name: '' @ chipName"

definition msg_semicolon :: string where
  "msg_semicolon = ''Expected '' @ [CHR 0x22] @ '';'' @ [CHR 0x22]"

text \<open>The case \<^verbatim>\<open>nodeKindChipDefinition\<close>.\<close>

definition definition_rule :: "string \<Rightarrow> Node \<Rightarrow> walk_vars \<Rightarrow> err + walk_vars" where
  "definition_rule source n vars =
     (case ChildByFieldName n ''name'' of
        None \<Rightarrow> Inr vars
      | Some name \<Rightarrow>
          bind (slice_bytes source (StartByte name) (EndByte name))
            (\<lambda>text. Inr (text, snd vars)))"

text \<open>The case \<^verbatim>\<open>nodeKindPart\<close>, first half: the two checks of the chip name.\<close>

definition chip_name_rule :: "string set \<Rightarrow> string \<Rightarrow> Node \<Rightarrow> walk_vars \<Rightarrow> err + walk_vars" where
  "chip_name_rule chips source n vars =
     (case ChildByFieldName n ''chip_name'' of
        None \<Rightarrow> Inr vars
      | Some name \<Rightarrow>
          bind (slice_bytes source (StartByte name) (EndByte name))
            (\<lambda>chipName.
               bind (if chipName = fst vars
                     then bind (newDiagnostic (Some name) (msg_self chipName))
                            (\<lambda>d. Inr (snd vars @ [d]))
                     else Inr (snd vars))
                 (\<lambda>diagnostics.
                    bind (if chipName \<notin> chips
                          then bind (newDiagnostic (Some name) (msg_undefined chipName))
                                 (\<lambda>d. Inr (diagnostics @ [d]))
                          else Inr diagnostics)
                      (\<lambda>diagnostics'. Inr (fst vars, diagnostics')))))"

text \<open>
  The case \<^verbatim>\<open>nodeKindPart\<close>, second half: the loop over all children that stops at the
  first error node. \<^verbatim>\<open>child.Child(1)\<close> is nil when the error node has fewer than two
  children.
\<close>

fun error_scan :: "string \<Rightarrow> Node list \<Rightarrow> Diagnostic list \<Rightarrow> err + Diagnostic list" where
  "error_scan source [] diagnostics = Inr diagnostics"
| "error_scan source (child # rest) diagnostics =
     (if IsError child then
        bind (slice_bytes source (StartByte child) (EndByte child))
          (\<lambda>childText.
             if HasPrefix (TrimSpace childText) '')''
             then bind (newDiagnostic (Child child 1) msg_semicolon)
                    (\<lambda>d. Inr (diagnostics @ [d]))
             else Inr diagnostics)
      else error_scan source rest diagnostics)"

definition part_rule :: "string set \<Rightarrow> string \<Rightarrow> Node \<Rightarrow> walk_vars \<Rightarrow> err + walk_vars" where
  "part_rule chips source n vars =
     bind (chip_name_rule chips source n vars)
       (\<lambda>vars'. bind (error_scan source (Children n) (snd vars'))
                   (\<lambda>diagnostics. Inr (fst vars', diagnostics)))"

text \<open>The \<^verbatim>\<open>switch\<close> on the trimmed kind of the node.\<close>

definition visit :: "string set \<Rightarrow> string \<Rightarrow> Node \<Rightarrow> walk_vars \<Rightarrow> err + walk_vars" where
  "visit chips source n vars =
     (if TrimSpace (Kind n) = nodeKindChipDefinition then definition_rule source n vars
      else if TrimSpace (Kind n) = nodeKindPart then part_rule chips source n vars
      else Inr vars)"

text \<open>\<^verbatim>\<open>walk\<close>: the node itself, then its named children in order.\<close>

fun walk :: "string set \<Rightarrow> string \<Rightarrow> Node \<Rightarrow> walk_vars \<Rightarrow> err + walk_vars"
  and walk_children :: "string set \<Rightarrow> string \<Rightarrow> Node list \<Rightarrow> walk_vars \<Rightarrow> err + walk_vars"
  where
  "walk chips source (Node k nm er f sb eb sp ep cs) vars =
     bind (visit chips source (Node k nm er f sb eb sp ep cs) vars)
       (walk_children chips source cs)"
| "walk_children chips source [] vars = Inr vars"
| "walk_children chips source (c # cs) vars =
     (if IsNamed c
      then bind (walk chips source c vars) (walk_children chips source cs)
      else walk_children chips source cs vars)"

subsection \<open>The server and its handlers\<close>

text \<open>
  The variables of \<^verbatim>\<open>main\<close> that the handlers share, and \<open>outbox\<close>: the notifications
  the transport has accepted. Encoding the parameters of a notification as JSON does not
  fail; sending them may.
\<close>

record server =
  implementedChips :: "string set"
  openFiles :: "string \<rightharpoonup> string"
  outbox :: "PublishDiagnosticsParams list"

definition publishDiagnostics ::
  "world \<Rightarrow> string \<Rightarrow> string \<Rightarrow> int \<Rightarrow> server \<Rightarrow> (err + unit) \<times> server" where
  "publishDiagnostics w source uri version sv =
     (case walk (implementedChips sv) source (Parse w source) ([], []) of
        Inl e \<Rightarrow> (Inl e, sv)
      | Inr vars \<Rightarrow>
          (let diagnosticsParams = \<lparr>Uri = uri, Version = version, Diagnostics = snd vars\<rparr>
           in case SendNotification w diagnosticsParams of
                Some e \<Rightarrow> (Inl (Wrapped ''error sending notification'' e), sv)
              | None \<Rightarrow> (Inr (), sv\<lparr>outbox := outbox sv @ [diagnosticsParams]\<rparr>)))"

definition OnDidOpenTextDocument ::
  "world \<Rightarrow> string \<Rightarrow> string \<Rightarrow> int \<Rightarrow> server \<Rightarrow> (err + unit) \<times> server" where
  "OnDidOpenTextDocument w uri source version sv =
     (let sv0 = sv\<lparr>openFiles := (openFiles sv)(uri \<mapsto> source)\<rparr>
      in case collectChips w (builtInChipsDir uri) (implementedChips sv0) of
           (Some e, chips1) \<Rightarrow>
             (Inl (Wrapped ''collect primitive builtin chips'' e),
              sv0\<lparr>implementedChips := chips1\<rparr>)
         | (None, chips1) \<Rightarrow>
             (case collectChips w (baseDir uri) chips1 of
                (Some e, chips2) \<Rightarrow>
                  (Inl (Wrapped ''collect implemented chips'' e),
                   sv0\<lparr>implementedChips := chips2\<rparr>)
              | (None, chips2) \<Rightarrow>
                  publishDiagnostics w source uri version (sv0\<lparr>implementedChips := chips2\<rparr>)))"

text \<open>
  A content change carries its text as an untyped value; \<open>None\<close> stands for a value that
  is not a string, on which the type assertion panics.
\<close>

fun OnDidChangeTextDocument ::
  "world \<Rightarrow> string \<Rightarrow> int \<Rightarrow> string option list \<Rightarrow> server \<Rightarrow> (err + unit) \<times> server" where
  "OnDidChangeTextDocument w uri version [] sv = (Inr (), sv)"
| "OnDidChangeTextDocument w uri version (contentChange # rest) sv =
     (case contentChange of
        None \<Rightarrow> (Inl PanicTypeAssertion, sv)
      | Some text \<Rightarrow>
          (case publishDiagnostics w text uri version sv of
             (Inl e, sv') \<Rightarrow> (Inl e, sv')
           | (Inr u, sv') \<Rightarrow> OnDidChangeTextDocument w uri version rest sv'))"

text \<open>
  The walk inside \<^verbatim>\<open>OnDefinition\<close>: \<^verbatim>\<open>startPosition\<close> and \<^verbatim>\<open>endPosition\<close> are
  overwritten at every \<^verbatim>\<open>chip_definition\<close> that has a name.
\<close>

type_synonym span = "Point \<times> Point"

definition capture :: "Node \<Rightarrow> span \<Rightarrow> span" where
  "capture n positions =
     (if TrimSpace (Kind n) = nodeKindChipDefinition
      then (case ChildByFieldName n ''name'' of
              None \<Rightarrow> positions
            | Some name \<Rightarrow> (StartPosition name, EndPosition name))
      else positions)"

fun walk_definition :: "Node \<Rightarrow> span \<Rightarrow> span"
  and walk_definition_children :: "Node list \<Rightarrow> span \<Rightarrow> span" where
  "walk_definition (Node k nm er f sb eb sp ep cs) positions =
     walk_definition_children cs (capture (Node k nm er f sb eb sp ep cs) positions)"
| "walk_definition_children [] positions = positions"
| "walk_definition_children (c # cs) positions =
     (if IsNamed c
      then walk_definition_children cs (walk_definition c positions)
      else walk_definition_children cs positions)"

definition zero_point :: Point where
  "zero_point = \<lparr>Row = 0, Column = 0\<rparr>"

definition range_of :: "span \<Rightarrow> Range" where
  "range_of positions =
     \<lparr>Start = \<lparr>Line = Row (fst positions), Character = Column (fst positions)\<rparr>,
      End = \<lparr>Line = Row (snd positions), Character = Column (snd positions)\<rparr>\<rparr>"

text \<open>
  The file the definition is looked up in: the candidate in the document's directory
  unless \<^verbatim>\<open>os.Stat\<close> reports that it does not exist.
\<close>

definition target_of :: "world \<Rightarrow> string \<Rightarrow> string \<Rightarrow> string" where
  "target_of w uri primitiveChipName =
     (let fileName = primitiveChipName @ ext;
          path = Join [baseDir uri, fileName]
      in case Stat w path of
           Some e \<Rightarrow> if is_not_exist e then Join [builtInChipsDir uri, fileName] else path
         | None \<Rightarrow> path)"

text \<open>
  \<^verbatim>\<open>OnDefinition\<close>, up to the chip name under the cursor: the document is read from
  its file, the position is converted with \<^verbatim>\<open>int(...)\<close> and the offset with
  \<^verbatim>\<open>uint(...)\<close>. \<^verbatim>\<open>Parent()\<close> of the root is nil, and \<^verbatim>\<open>Kind\<close> of nil is a nil
  dereference. The result is \<open>None\<close> where the handler goes on to \<^verbatim>\<open>return nil, nil\<close>,
  else the document's tree and the text of the \<^verbatim>\<open>chip_name\<close> field.
\<close>

definition instantiation_at :: "world \<Rightarrow> string \<Rightarrow> Position \<Rightarrow> err + (Node \<times> string) option" where
  "instantiation_at w uri position =
     bind (readFile w uri)
       (\<lambda>source.
          bind (getByteOffset source (sint (Line position)) (sint (Character position)))
            (\<lambda>offset.
               let tree = Parse w source
               in case Parent (DescendantForByteRange tree (of_int offset) (of_int offset)) of
                    None \<Rightarrow> Inl PanicNilDereference
                  | Some node \<Rightarrow>
                      if TrimSuffix (Kind node) [newline] = nodeKindPart then
                        (case ChildByFieldName node ''chip_name'' of
                           None \<Rightarrow> Inr None
                         | Some name \<Rightarrow>
                             bind (slice_bytes source (StartByte name) (EndByte name))
                               (\<lambda>primitiveChipName. Inr (Some (tree, primitiveChipName))))
                      else Inr None))"

text \<open>
  \<^verbatim>\<open>OnDefinition\<close>, from the chip name on. The second walk runs on
  \<^verbatim>\<open>tree.RootNode()\<close>, the tree of the document of the request; \<^verbatim>\<open>targetTree\<close> is
  parsed and closed.
\<close>

definition OnDefinition :: "world \<Rightarrow> string \<Rightarrow> Position \<Rightarrow> err + LocationLink list option" where
  "OnDefinition w uri position =
     bind (instantiation_at w uri position)
       (\<lambda>found.
          case found of
            None \<Rightarrow> Inr None
          | Some (tree, primitiveChipName) \<Rightarrow>
              (let targetUri = target_of w uri primitiveChipName
               in bind (readFile w targetUri)
                    (\<lambda>targetSource.
                       let targetTree = Parse w targetSource;
                           positions = walk_definition tree (zero_point, zero_point);
                           targetRange = range_of positions
                       in Inr (Some [\<lparr>TargetUri = ''file://'' @ targetUri,
                                       TargetRange = targetRange,
                                       TargetSelectionRange = targetRange\<rparr>]))))"

text \<open>The events the server handles, and the handler each one runs.\<close>

datatype event =
    DidOpen string string int
  | DidChange string int "string option list"
  | Definition string Position

fun handle :: "world \<Rightarrow> event \<Rightarrow> server \<Rightarrow> (err + LocationLink list option) \<times> server" where
  "handle w (DidOpen uri source version) sv =
     (case OnDidOpenTextDocument w uri source version sv of
        (Inl e, sv') \<Rightarrow> (Inl e, sv')
      | (Inr u, sv') \<Rightarrow> (Inr None, sv'))"
| "handle w (DidChange uri version changes) sv =
     (case OnDidChangeTextDocument w uri version changes sv of
        (Inl e, sv') \<Rightarrow> (Inl e, sv')
      | (Inr u, sv') \<Rightarrow> (Inr None, sv'))"
| "handle w (Definition uri position) sv = (OnDefinition w uri position, sv)"

subsection \<open>Pre-order\<close>

text \<open>
  The nodes a walk visits, in the order it visits them: the node, then what it visits
  below each named child, children in order. A \<^verbatim>\<open>chip_definition\<close> with a name is what
  both walks take a defining name from.
\<close>

fun preorder :: "Node \<Rightarrow> Node list"
  and preorder_children :: "Node list \<Rightarrow> Node list" where
  "preorder (Node k nm er f sb eb sp ep cs) =
     Node k nm er f sb eb sp ep cs # preorder_children cs"
| "preorder_children [] = []"
| "preorder_children (c # cs) =
     (if IsNamed c then preorder c @ preorder_children cs else preorder_children cs)"

fun visit_each :: "string set \<Rightarrow> string \<Rightarrow> Node list \<Rightarrow> walk_vars \<Rightarrow> err + walk_vars" where
  "visit_each chips source [] vars = Inr vars"
| "visit_each chips source (n # ns) vars =
     bind (visit chips source n vars) (visit_each chips source ns)"

definition defines_name :: "Node \<Rightarrow> bool" where
  "defines_name n =
     (TrimSpace (Kind n) = nodeKindChipDefinition \<and> ChildByFieldName n ''name'' \<noteq> None)"

text \<open>
  The current defining name at a point of the walk, in the words of the specification: the
  text of the name of the last \<^verbatim>\<open>chip_definition\<close> with a name among the nodes visited so
  far, and the empty string when there is none.
\<close>

definition name_text :: "string \<Rightarrow> Node \<Rightarrow> string" where
  "name_text source d =
     (case ChildByFieldName d ''name'' of
        None \<Rightarrow> []
      | Some name \<Rightarrow>
          (case slice_bytes source (StartByte name) (EndByte name) of
             Inl e \<Rightarrow> []
           | Inr text \<Rightarrow> text))"

definition defining_name :: "string \<Rightarrow> Node list \<Rightarrow> string" where
  "defining_name source visited =
     (case rev (filter defines_name visited) of
        [] \<Rightarrow> []
      | d # ds \<Rightarrow> name_text source d)"

text \<open>
  The diagnostics the specification asks for at an instantiation whose chip name is the
  node \<open>name\<close> with the text \<open>referenced\<close>, under the current defining name \<open>current\<close>:
  the self-reference diagnostic when the two names are equal and, independently, the
  undefined-chip diagnostic when \<open>referenced\<close> is not in the catalog, both at the range of
  \<open>name\<close>.
\<close>

definition name_diagnostics :: "string set \<Rightarrow> string \<Rightarrow> Node \<Rightarrow> string \<Rightarrow> Diagnostic list" where
  "name_diagnostics chips current name referenced =
     (if referenced = current
      then [\<lparr>Range = range_of (StartPosition name, EndPosition name),
             Severity = DiagnosticSeverityError,
             Message = ''Cannot use chip '' @ referenced @ '' to implement itself''\<rparr>]
      else [])
     @ (if referenced \<notin> chips
        then [\<lparr>Range = range_of (StartPosition name, EndPosition name),
               Severity = DiagnosticSeverityError,
               Message = ''Undefined chip name: '' @ referenced\<rparr>]
        else [])"

subsection \<open>A small project, for concrete runs\<close>

text \<open>
  The grammar and the parser are outside the repository, and every theorem below holds
  for every parser. The project here is one world in which their hypotheses are met. Its
  texts are chips in the usual layout (\<^verbatim>\<open>IN\<close>, \<^verbatim>\<open>OUT\<close>, \<^verbatim>\<open>PARTS:\<close>); its parser is
  a stand-in that returns, for each of these texts, a tree with what the handlers read:
  the \<^verbatim>\<open>chip_definition\<close> with its \<^verbatim>\<open>name\<close>, each \<^verbatim>\<open>part\<close> with its \<^verbatim>\<open>chip_name\<close>
  and its children, an error node where a token is skipped, and the byte range and the
  points of every node as they lie in the text. The kinds of the other nodes are never
  tested by the server; the stand-in names them after what they cover.
\<close>

definition text_of_lines :: "string list \<Rightarrow> string" where
  "text_of_lines ls = concat (map (\<lambda>l. l @ [newline]) ls)"

definition pt :: "nat \<Rightarrow> nat \<Rightarrow> Point" where
  "pt r c = \<lparr>Row = of_nat r, Column = of_nat c\<rparr>"

text \<open>An anonymous token and a named leaf of \<open>n\<close> bytes at byte \<open>b\<close>, row \<open>r\<close>, column \<open>c\<close>.\<close>

definition token :: "string \<Rightarrow> nat \<Rightarrow> nat \<Rightarrow> nat \<Rightarrow> nat \<Rightarrow> Node" where
  "token k b r c n =
     Node k False False None (of_nat b) (of_nat (b + n)) (pt r c) (pt r (c + n)) []"

definition leaf :: "string \<Rightarrow> string option \<Rightarrow> nat \<Rightarrow> nat \<Rightarrow> nat \<Rightarrow> nat \<Rightarrow> Node" where
  "leaf k f b r c n =
     Node k True False f (of_nat b) (of_nat (b + n)) (pt r c) (pt r (c + n)) []"

text \<open>A named node and an error node from byte \<open>b\<close> at point \<open>p\<close> to byte \<open>e\<close> at point \<open>q\<close>.\<close>

definition inner :: "string \<Rightarrow> nat \<Rightarrow> Point \<Rightarrow> nat \<Rightarrow> Point \<Rightarrow> Node list \<Rightarrow> Node" where
  "inner k b p e q cs = Node k True False None (of_nat b) (of_nat e) p q cs"

definition error_node :: "nat \<Rightarrow> Point \<Rightarrow> nat \<Rightarrow> Point \<Rightarrow> Node list \<Rightarrow> Node" where
  "error_node b p e q cs = Node ''ERROR'' True True None (of_nat b) (of_nat e) p q cs"

text \<open>The document \<^verbatim>\<open>Mux.hdl\<close>, which instantiates \<^verbatim>\<open>DMux\<close>.\<close>

definition mux_source :: string where
  "mux_source =
     text_of_lines
     [''CHIP Mux {'',
      ''    IN a;'',
      ''    OUT out;'',
      '''',
      ''    PARTS:'',
      ''    DMux(in=a, a=out);'',
      ''}'']"

definition mux_part :: Node where
  "mux_part =
     inner ''part'' 50 (pt 5 4) 68 (pt 5 22)
       [leaf ''identifier'' (Some ''chip_name'') 50 5 4 4,
        token ''('' 54 5 8 1,
        inner ''connection'' 55 (pt 5 9) 59 (pt 5 13)
          [leaf ''identifier'' None 55 5 9 2,
           token ''='' 57 5 11 1,
           leaf ''identifier'' None 58 5 12 1],
        token '','' 59 5 13 1,
        inner ''connection'' 61 (pt 5 15) 66 (pt 5 20)
          [leaf ''identifier'' None 61 5 15 1,
           token ''='' 62 5 16 1,
           leaf ''identifier'' None 63 5 17 3],
        token '')'' 66 5 20 1,
        token '';'' 67 5 21 1]"

definition mux_tree :: Node where
  "mux_tree =
     inner ''source_file'' 0 (pt 0 0) 71 (pt 7 0)
       [inner ''chip_definition'' 0 (pt 0 0) 70 (pt 6 1)
          [token ''CHIP'' 0 0 0 4,
           leaf ''identifier'' (Some ''name'') 5 0 5 3,
           token ''{'' 9 0 9 1,
           inner ''in_section'' 15 (pt 1 4) 20 (pt 1 9)
             [token ''IN'' 15 1 4 2,
              leaf ''identifier'' None 18 1 7 1,
              token '';'' 19 1 8 1],
           inner ''out_section'' 25 (pt 2 4) 33 (pt 2 12)
             [token ''OUT'' 25 2 4 3,
              leaf ''identifier'' None 29 2 8 3,
              token '';'' 32 2 11 1],
           inner ''parts_section'' 39 (pt 4 4) 68 (pt 5 22)
             [token ''PARTS:'' 39 4 4 6,
              mux_part],
           token ''}'' 69 6 0 1]]"

text \<open>The text of \<^verbatim>\<open>DMux.hdl\<close>: the name of its chip is one byte longer.\<close>

definition dmux_source :: string where
  "dmux_source =
     text_of_lines
     [''CHIP DMux {'',
      ''    IN in;'',
      ''    OUT a;'',
      '''',
      ''    PARTS:'',
      ''    Not(in=in, out=a);'',
      ''}'']"

definition dmux_tree :: Node where
  "dmux_tree =
     inner ''source_file'' 0 (pt 0 0) 71 (pt 7 0)
       [inner ''chip_definition'' 0 (pt 0 0) 70 (pt 6 1)
          [token ''CHIP'' 0 0 0 4,
           leaf ''identifier'' (Some ''name'') 5 0 5 4,
           token ''{'' 10 0 10 1,
           inner ''in_section'' 16 (pt 1 4) 22 (pt 1 10)
             [token ''IN'' 16 1 4 2,
              leaf ''identifier'' None 19 1 7 2,
              token '';'' 21 1 9 1],
           inner ''out_section'' 27 (pt 2 4) 33 (pt 2 10)
             [token ''OUT'' 27 2 4 3,
              leaf ''identifier'' None 31 2 8 1,
              token '';'' 32 2 9 1],
           inner ''parts_section'' 39 (pt 4 4) 68 (pt 5 22)
             [token ''PARTS:'' 39 4 4 6,
              inner ''part'' 50 (pt 5 4) 68 (pt 5 22)
                [leaf ''identifier'' (Some ''chip_name'') 50 5 4 3,
                 token ''('' 53 5 7 1,
                 inner ''connection'' 54 (pt 5 8) 59 (pt 5 13)
                   [leaf ''identifier'' None 54 5 8 2,
                    token ''='' 56 5 10 1,
                    leaf ''identifier'' None 57 5 11 2],
                 token '','' 59 5 13 1,
                 inner ''connection'' 61 (pt 5 15) 66 (pt 5 20)
                   [leaf ''identifier'' None 61 5 15 3,
                    token ''='' 64 5 18 1,
                    leaf ''identifier'' None 65 5 19 1],
                 token '')'' 66 5 20 1,
                 token '';'' 67 5 21 1]],
           token ''}'' 69 6 0 1]]"

text \<open>
  The document with one closing parenthesis too many after the part's connections: the
  second parenthesis is skipped as an error node of its own.
\<close>

definition paren_source :: string where
  "paren_source =
     text_of_lines
     [''CHIP Mux {'',
      ''    IN a;'',
      ''    OUT out;'',
      '''',
      ''    PARTS:'',
      ''    DMux(in=a, a=out));'',
      ''}'']"

definition paren_error :: Node where
  "paren_error =
     error_node 67 (pt 5 21) 68 (pt 5 22)
       [token '')'' 67 5 21 1]"

definition paren_part :: Node where
  "paren_part =
     inner ''part'' 50 (pt 5 4) 69 (pt 5 23)
       [leaf ''identifier'' (Some ''chip_name'') 50 5 4 4,
        token ''('' 54 5 8 1,
        inner ''connection'' 55 (pt 5 9) 59 (pt 5 13)
          [leaf ''identifier'' None 55 5 9 2,
           token ''='' 57 5 11 1,
           leaf ''identifier'' None 58 5 12 1],
        token '','' 59 5 13 1,
        inner ''connection'' 61 (pt 5 15) 66 (pt 5 20)
          [leaf ''identifier'' None 61 5 15 1,
           token ''='' 62 5 16 1,
           leaf ''identifier'' None 63 5 17 3],
        token '')'' 66 5 20 1,
        paren_error,
        token '';'' 68 5 22 1]"

definition paren_tree :: Node where
  "paren_tree =
     inner ''source_file'' 0 (pt 0 0) 72 (pt 7 0)
       [inner ''chip_definition'' 0 (pt 0 0) 71 (pt 6 1)
          [token ''CHIP'' 0 0 0 4,
           leaf ''identifier'' (Some ''name'') 5 0 5 3,
           token ''{'' 9 0 9 1,
           inner ''in_section'' 15 (pt 1 4) 20 (pt 1 9)
             [token ''IN'' 15 1 4 2,
              leaf ''identifier'' None 18 1 7 1,
              token '';'' 19 1 8 1],
           inner ''out_section'' 25 (pt 2 4) 33 (pt 2 12)
             [token ''OUT'' 25 2 4 3,
              leaf ''identifier'' None 29 2 8 3,
              token '';'' 32 2 11 1],
           inner ''parts_section'' 39 (pt 4 4) 69 (pt 5 23)
             [token ''PARTS:'' 39 4 4 6,
              paren_part],
           token ''}'' 70 6 0 1]]"

text \<open>A chip that instantiates itself.\<close>

definition xor_source :: string where
  "xor_source =
     text_of_lines
     [''CHIP Xor {'',
      ''    IN a, b;'',
      ''    OUT out;'',
      '''',
      ''    PARTS:'',
      ''    Xor(a=a, b=b, out=out);'',
      ''}'']"

definition xor_part :: Node where
  "xor_part =
     inner ''part'' 53 (pt 5 4) 76 (pt 5 27)
       [leaf ''identifier'' (Some ''chip_name'') 53 5 4 3,
        token ''('' 56 5 7 1,
        inner ''connection'' 57 (pt 5 8) 60 (pt 5 11)
          [leaf ''identifier'' None 57 5 8 1,
           token ''='' 58 5 9 1,
           leaf ''identifier'' None 59 5 10 1],
        token '','' 60 5 11 1,
        inner ''connection'' 62 (pt 5 13) 65 (pt 5 16)
          [leaf ''identifier'' None 62 5 13 1,
           token ''='' 63 5 14 1,
           leaf ''identifier'' None 64 5 15 1],
        token '','' 65 5 16 1,
        inner ''connection'' 67 (pt 5 18) 74 (pt 5 25)
          [leaf ''identifier'' None 67 5 18 3,
           token ''='' 70 5 21 1,
           leaf ''identifier'' None 71 5 22 3],
        token '')'' 74 5 25 1,
        token '';'' 75 5 26 1]"

definition xor_tree :: Node where
  "xor_tree =
     inner ''source_file'' 0 (pt 0 0) 79 (pt 7 0)
       [inner ''chip_definition'' 0 (pt 0 0) 78 (pt 6 1)
          [token ''CHIP'' 0 0 0 4,
           leaf ''identifier'' (Some ''name'') 5 0 5 3,
           token ''{'' 9 0 9 1,
           inner ''in_section'' 15 (pt 1 4) 23 (pt 1 12)
             [token ''IN'' 15 1 4 2,
              leaf ''identifier'' None 18 1 7 1,
              token '','' 19 1 8 1,
              leaf ''identifier'' None 21 1 10 1,
              token '';'' 22 1 11 1],
           inner ''out_section'' 28 (pt 2 4) 36 (pt 2 12)
             [token ''OUT'' 28 2 4 3,
              leaf ''identifier'' None 32 2 8 3,
              token '';'' 35 2 11 1],
           inner ''parts_section'' 42 (pt 4 4) 76 (pt 5 27)
             [token ''PARTS:'' 42 4 4 6,
              xor_part],
           token ''}'' 77 6 0 1]]"

text \<open>The nodes that the walk visits before and after the part of a tree.\<close>

definition visited_before :: "Node \<Rightarrow> Node \<Rightarrow> Node list" where
  "visited_before n root = takeWhile (\<lambda>m. m \<noteq> n) (preorder root)"

definition visited_after :: "Node \<Rightarrow> Node \<Rightarrow> Node list" where
  "visited_after n root = tl (dropWhile (\<lambda>m. m \<noteq> n) (preorder root))"

text \<open>
  The project: the document, \<^verbatim>\<open>DMux.hdl\<close> beside it and in the built-in library, and
  a copy of the document in a directory without \<^verbatim>\<open>DMux.hdl\<close>. The operating system
  resolves a path whatever its repeated separators.
\<close>

definition project_files :: "(string \<times> string) list" where
  "project_files =
     [(''/proj/a/b/Mux.hdl'', mux_source),
      (''/proj/a/b/DMux.hdl'', dmux_source),
      (''/proj/c/d/Mux.hdl'', mux_source),
      (''/proj/tools/builtInChips/DMux.hdl'', dmux_source)]"

definition project_dirs :: "(string \<times> dirent) list" where
  "project_dirs =
     [(''/proj/a/b'',
       Directory [(''DMux.hdl'', RegularFile), (''Mux.hdl'', RegularFile),
                  (''notes.txt'', RegularFile)]),
      (''/proj/tools/builtInChips'',
       Directory [(''DMux.hdl'', RegularFile), (''sub'', Directory [(''And.hdl'', RegularFile)])]),
      (''/proj/c/d'', Directory [(''Or.hdl'', RegularFile), (''locked'', Unreadable EACCES)])]"

definition project_parse :: "string \<Rightarrow> Node" where
  "project_parse source =
     (if source = mux_source then mux_tree
      else if source = dmux_source then dmux_tree
      else if source = paren_source then paren_tree
      else if source = xor_source then xor_tree
      else inner ''source_file'' 0 (pt 0 0) 0 (pt 0 0) [])"

definition project :: world where
  "project =
     \<lparr>ReadFile = (\<lambda>path. case map_of project_files (Clean path) of
                            None \<Rightarrow> Inl (PathError path ENOENT)
                          | Some bytes \<Rightarrow> Inr bytes),
      Stat = (\<lambda>path. case map_of project_files (Clean path) of
                        None \<Rightarrow> Some (PathError path ENOENT)
                      | Some bytes \<Rightarrow> None),
      Lstat = (\<lambda>path. case map_of project_dirs (Clean path) of
                         None \<Rightarrow> Inl ENOENT
                       | Some d \<Rightarrow> Inr d),
      Parse = project_parse,
      SendNotification = (\<lambda>params. None)\<rparr>"

definition mux_uri :: string where
  "mux_uri = ''file:///proj/a/b/Mux.hdl''"

definition xor_uri :: string where
  "xor_uri = ''file:///proj/a/b/Xor.hdl''"

definition fresh_server :: server where
  "fresh_server = \<lparr>implementedChips = {}, openFiles = Map.empty, outbox = []\<rparr>"

section \<open>Properties\<close>

subsection \<open>The position translator\<close>

lemma offset_loop_sum:
  "0 \<le> i \<Longrightarrow> line \<le> int (length lines) \<Longrightarrow>
   offset_loop lines line i offset =
     Inr (offset + (\<Sum>l\<leftarrow>take (nat line - nat i) (drop (nat i) lines). int (length l) + 1))"
proof (induction lines line i offset rule: offset_loop.induct)
  case (1 lines line i offset)
  show ?case
  proof (cases "i < line")
    case False
    then show ?thesis
      by (subst offset_loop.simps) simp
  next
    case True
    with "1.prems" have inside: "0 \<le> i" "i < int (length lines)" by auto
    then have lt: "nat i < length lines" by linarith
    have step: "take (nat line - nat i) (drop (nat i) lines) =
          lines ! nat i # take (nat line - nat (i + 1)) (drop (nat (i + 1)) lines)"
    proof -
      have "nat line - nat i = Suc (nat line - nat (i + 1))"
        using True inside by linarith
      moreover have "drop (nat i) lines = lines ! nat i # drop (nat (i + 1)) lines"
        using lt inside by (simp add: Cons_nth_drop_Suc nat_add_distrib)
      ultimately show ?thesis by simp
    qed
    have "offset_loop lines line i offset =
          offset_loop lines line (i + 1) (offset + (int (length (lines ! nat i)) + 1))"
      using True inside by (subst offset_loop.simps) simp
    also have "\<dots> = Inr (offset + (int (length (lines ! nat i)) + 1) +
          (\<Sum>l\<leftarrow>take (nat line - nat (i + 1)) (drop (nat (i + 1)) lines). int (length l) + 1))"
      using "1.IH" [OF True] inside "1.prems" by simp
    finally show ?thesis
      by (simp add: step)
  qed
qed

text \<open>
  C2, as the code has it. For a line index greater than the number of lines,
  \<^verbatim>\<open>getByteOffset\<close> returns the byte length of the text. For a line of the text and a
  character between 0 and the byte length of that line, it returns the bytes of the lines
  before, one more for each, plus the character. A character outside that range is not
  clamped: the slice expression panics.
\<close>

theorem getByteOffset_positions:
  "(int (length (Split text newline)) < line \<longrightarrow>
      getByteOffset text line char = Inr (int (length text)))
   \<and> (0 \<le> line \<and> line < int (length (Split text newline)) \<and> 0 \<le> char
        \<and> char \<le> int (length (Split text newline ! nat line)) \<longrightarrow>
      getByteOffset text line char =
        Inr ((\<Sum>l\<leftarrow>take (nat line) (Split text newline). int (length l) + 1) + char))
   \<and> (0 \<le> line \<and> line < int (length (Split text newline))
        \<and> (char < 0 \<or> int (length (Split text newline ! nat line)) < char) \<longrightarrow>
      getByteOffset text line char = Inl PanicSliceBounds)"
proof -
  have loop: "line \<le> int (length (Split text newline)) \<Longrightarrow>
      offset_loop (Split text newline) line 0 0 =
        Inr (\<Sum>l\<leftarrow>take (nat line) (Split text newline). int (length l) + 1)"
    using offset_loop_sum [of 0 line "Split text newline" 0] by simp
  show ?thesis
    by (auto simp: getByteOffset_def Let_def loop)
qed

text \<open>
  C2, the three cases on the text \<^verbatim>\<open>abc\<close>: line 5 of a one-line text, character 2 of
  line 0, character 4 of line 0.
\<close>

theorem getByteOffset_positions_witness:
  "getByteOffset ''abc'' 5 0 = Inr 3 \<and> getByteOffset ''abc'' 0 2 = Inr 2
   \<and> getByteOffset ''abc'' 0 4 = Inl PanicSliceBounds"
  using getByteOffset_positions [of "''abc''" 5 0] getByteOffset_positions [of "''abc''" 0 2]
    getByteOffset_positions [of "''abc''" 0 4]
  by (simp add: newline_def)

text \<open>
  C2 as stated fails: character 5 of the two-byte line \<^verbatim>\<open>ab\<close> is not clamped to an
  offset, the call panics.
\<close>

theorem getByteOffset_rejects_character: "getByteOffset ''ab'' 0 5 = Inl PanicSliceBounds"
  by code_simp

subsection \<open>The catalog\<close>

lemma collect_fn_union:
  "collect_fn path d er chips =
     (fst (collect_fn path d er {}), chips \<union> snd (collect_fn path d er {}))"
  by (auto simp: collect_fn_def split: option.splits)

lemma walk_union:
  "walkDir collect_fn path d chips =
     (fst (walkDir collect_fn path d {}), chips \<union> snd (walkDir collect_fn path d {}))"
  "walkEntries collect_fn path entries chips =
     (fst (walkEntries collect_fn path entries {}),
      chips \<union> snd (walkEntries collect_fn path entries {}))"
proof (induction d and entries arbitrary: path chips and path chips
    rule: readable_readable_entries.induct)
  case 1
  show ?case by (simp add: collect_fn_def)
next
  case (2 e)
  show ?case by (simp add: collect_fn_def)
next
  case (3 entries)
  have "walkDir collect_fn path (Directory entries) c = walkEntries collect_fn path entries c" for c
    by (simp add: collect_fn_def)
  then show ?case using "3.IH" [of path chips] by simp
next
  case 4
  show ?case by simp
next
  case (5 entry rest)
  obtain r A where first: "walkDir collect_fn (Join [path, fst entry]) (snd entry) {} = (r, A)"
    by (cases "walkDir collect_fn (Join [path, fst entry]) (snd entry) {}")
  have first': "walkDir collect_fn (Join [path, fst entry]) (snd entry) c = (r, c \<union> A)" for c
    using "5.IH"(1) [of "Join [path, fst entry]" c] first by simp
  show ?case
  proof (cases r)
    case (Some e)
    then show ?thesis using first first' [of chips] by simp
  next
    case None
    obtain r' B where rest: "walkEntries collect_fn path rest {} = (r', B)"
      by (cases "walkEntries collect_fn path rest {}")
    have rest': "walkEntries collect_fn path rest c = (r', c \<union> B)" for c
      using "5.IH"(2) [of path c] rest by simp
    show ?thesis
      using None first first' [of chips] rest' [of "chips \<union> A"] rest' [of A]
      by (simp add: Un_assoc)
  qed
qed

lemma WalkDir_union:
  "WalkDir w root collect_fn chips =
     (fst (WalkDir w root collect_fn {}), chips \<union> snd (WalkDir w root collect_fn {}))"
proof (cases "Lstat w root")
  case (Inl e)
  then show ?thesis by (simp add: WalkDir_def collect_fn_def)
next
  case (Inr d)
  then show ?thesis using walk_union(1) [of root d chips] by (simp add: WalkDir_def)
qed

lemma collectChips_union:
  "collectChips w dir chips =
     (fst (collectChips w dir {}), chips \<union> snd (collectChips w dir {}))"
proof -
  obtain r A where base: "WalkDir w dir collect_fn {} = (r, A)"
    by (cases "WalkDir w dir collect_fn {}")
  then have "WalkDir w dir collect_fn chips = (r, chips \<union> A)"
    using WalkDir_union [of w dir chips] by simp
  with base show ?thesis
    by (cases r) (simp_all add: collectChips_def)
qed

text \<open>
  C8. Collecting over the same directory tree a second time, from whatever catalog the
  first run started with, gives the result of the first run: the same catalog and the same
  outcome.
\<close>

theorem collectChips_idempotent:
  "collectChips w dir (snd (collectChips w dir chips)) = collectChips w dir chips"
proof -
  obtain r A where base: "collectChips w dir {} = (r, A)"
    by (cases "collectChips w dir {}")
  have "collectChips w dir c = (r, c \<union> A)" for c
    using collectChips_union [of w dir c] base by simp
  then show ?thesis by (simp add: Un_assoc)
qed

lemma walk_outcome:
  "fst (walkDir collect_fn path d chips) =
     None \<longleftrightarrow> readable d"
  "fst (walkEntries collect_fn path entries chips) = None \<longleftrightarrow> readable_entries entries"
proof (induction d and entries arbitrary: path chips and path chips
    rule: readable_readable_entries.induct)
  case (5 entry rest)
  show ?case
    using "5.IH"(1) [of "Join [path, fst entry]" chips] "5.IH"(2) [of path]
    by (cases "walkDir collect_fn (Join [path, fst entry]) (snd entry) chips")
       (auto split: option.splits)
qed (simp_all add: collect_fn_def)

lemma walk_error_kind:
  "fst (walkDir collect_fn path d chips) = Some e \<Longrightarrow> \<exists>p no. e = PathError p no"
  "fst (walkEntries collect_fn path entries chips) = Some e \<Longrightarrow> \<exists>p no. e = PathError p no"
proof (induction d and entries arbitrary: path chips and path chips
    rule: readable_readable_entries.induct)
  case (5 entry rest)
  show ?case
    using "5.IH"(1) [of "Join [path, fst entry]" chips] "5.IH"(2) [of path] "5.prems"
    by (cases "walkDir collect_fn (Join [path, fst entry]) (snd entry) chips")
       (auto split: option.splits)
qed (auto simp: collect_fn_def split: if_splits)

lemma collectChips_outcome:
  "walk_fails w dir \<Longrightarrow>
   \<exists>p no. fst (collectChips w dir chips) = Some (Wrapped ''error walking dir'' (PathError p no))"
  "\<not> walk_fails w dir \<Longrightarrow> fst (collectChips w dir chips) = None"
proof -
  show "fst (collectChips w dir chips) = None" if ok: "\<not> walk_fails w dir"
  proof (cases "Lstat w dir")
    case (Inl e)
    with ok show ?thesis by (simp add: walk_fails_def)
  next
    case (Inr d)
    with ok have "fst (walkDir collect_fn dir d chips) = None"
      using walk_outcome(1) [of dir d chips] by (simp add: walk_fails_def)
    with Inr show ?thesis
      by (cases "walkDir collect_fn dir d chips") (simp add: collectChips_def WalkDir_def)
  qed
  assume fails: "walk_fails w dir"
  show "\<exists>p no. fst (collectChips w dir chips) = Some (Wrapped ''error walking dir'' (PathError p no))"
  proof (cases "Lstat w dir")
    case (Inl e)
    then show ?thesis by (simp add: collectChips_def WalkDir_def collect_fn_def)
  next
    case (Inr d)
    with fails have "\<not> readable d" by (simp add: walk_fails_def)
    then obtain e where e: "fst (walkDir collect_fn dir d chips) = Some e"
      using walk_outcome(1) [of dir d chips] by auto
    then obtain p no where "e = PathError p no"
      using walk_error_kind(1) by blast
    with e Inr show ?thesis
      by (cases "walkDir collect_fn dir d chips") (simp add: collectChips_def WalkDir_def)
  qed
qed

lemma collectChips_grows: "chips \<subseteq> snd (collectChips w dir chips)"
  using collectChips_union [of w dir chips] by (metis Un_upper1 snd_conv)

lemma publishDiagnostics_catalog:
  "implementedChips (snd (publishDiagnostics w source uri version sv)) = implementedChips sv"
  by (simp add: publishDiagnostics_def Let_def split: sum.splits option.splits)

lemma OnDidChangeTextDocument_catalog:
  "implementedChips (snd (OnDidChangeTextDocument w uri version changes sv)) = implementedChips sv"
proof (induction changes arbitrary: sv)
  case Nil
  show ?case by simp
next
  case (Cons c rest)
  show ?case
  proof (cases c)
    case None
    then show ?thesis by simp
  next
    case (Some body)
    obtain r sv' where pub: "publishDiagnostics w body uri version sv = (r, sv')"
      by (cases "publishDiagnostics w body uri version sv")
    then have "implementedChips sv' = implementedChips sv"
      using publishDiagnostics_catalog [of w body uri version sv] by simp
    with Some pub Cons.IH [of sv'] show ?thesis
      by (cases r) simp_all
  qed
qed

lemma OnDidOpenTextDocument_grows:
  "implementedChips sv \<subseteq> implementedChips (snd (OnDidOpenTextDocument w uri source version sv))"
proof -
  obtain r1 c1 where one: "collectChips w (builtInChipsDir uri) (implementedChips sv) = (r1, c1)"
    by (cases "collectChips w (builtInChipsDir uri) (implementedChips sv)")
  obtain r2 c2 where two: "collectChips w (baseDir uri) c1 = (r2, c2)"
    by (cases "collectChips w (baseDir uri) c1")
  have "implementedChips sv \<subseteq> c1"
    using collectChips_grows [of "implementedChips sv" w "builtInChipsDir uri"] one by simp
  moreover have "c1 \<subseteq> c2"
    using collectChips_grows [of c1 w "baseDir uri"] two by simp
  ultimately show ?thesis
    using one two
    by (cases r1; cases r2)
       (auto simp: OnDidOpenTextDocument_def Let_def publishDiagnostics_catalog)
qed

text \<open>
  C9. Whatever event the server handles (document open, document change, definition
  request) and whatever the files are at that moment, the catalog afterwards contains the
  catalog before.
\<close>

theorem catalog_never_shrinks:
  "implementedChips sv \<subseteq> implementedChips (snd (handle w ev sv))"
proof (cases ev)
  case (DidOpen uri source version)
  then show ?thesis
    using OnDidOpenTextDocument_grows [of sv w uri source version]
    by (cases "OnDidOpenTextDocument w uri source version sv"; cases "fst (OnDidOpenTextDocument w uri source version sv)") auto
next
  case (DidChange uri version changes)
  then show ?thesis
    using OnDidChangeTextDocument_catalog [of w uri version changes sv]
    by (cases "OnDidChangeTextDocument w uri version changes sv"; cases "fst (OnDidChangeTextDocument w uri version changes sv)") auto
next
  case (Definition uri position)
  then show ?thesis by simp
qed

text \<open>
  C7. When the walk of the built-in library directory or of the document's own directory
  fails, the open handler returns that failure, wrapped twice, as an error and not as a
  panic, and no diagnostics are published.
\<close>

theorem open_aborts_when_walk_fails:
  assumes "walk_fails w (builtInChipsDir uri) \<or> walk_fails w (baseDir uri)"
  shows "\<exists>e msg p no.
           fst (OnDidOpenTextDocument w uri source version sv) = Inl e
           \<and> e = Wrapped msg (Wrapped ''error walking dir'' (PathError p no))
           \<and> \<not> is_panic e
           \<and> outbox (snd (OnDidOpenTextDocument w uri source version sv)) = outbox sv"
proof (cases "walk_fails w (builtInChipsDir uri)")
  case True
  obtain r1 c1 where one:
    "collectChips w (builtInChipsDir uri) (implementedChips sv) = (r1, c1)"
    by (cases "collectChips w (builtInChipsDir uri) (implementedChips sv)")
  with collectChips_outcome(1) [OF True, of "implementedChips sv"]
  obtain p no where "r1 = Some (Wrapped ''error walking dir'' (PathError p no))"
    by auto
  with one show ?thesis
    by (simp add: OnDidOpenTextDocument_def Let_def)
next
  case False
  with assms have second: "walk_fails w (baseDir uri)" by simp
  obtain r1 c1 where one:
    "collectChips w (builtInChipsDir uri) (implementedChips sv) = (r1, c1)"
    by (cases "collectChips w (builtInChipsDir uri) (implementedChips sv)")
  with collectChips_outcome(2) [OF False, of "implementedChips sv"] have r1: "r1 = None"
    by simp
  obtain r2 c2 where two: "collectChips w (baseDir uri) c1 = (r2, c2)"
    by (cases "collectChips w (baseDir uri) c1")
  with collectChips_outcome(1) [OF second, of c1]
  obtain p no where "r2 = Some (Wrapped ''error walking dir'' (PathError p no))"
    by auto
  with one r1 two show ?thesis
    by (simp add: OnDidOpenTextDocument_def Let_def)
qed

text \<open>
  C7 on the project: a document whose built-in library directory is missing, and a
  document whose own directory holds a directory that cannot be read.
\<close>

theorem open_aborts_when_walk_fails_witness:
  "walk_fails project (builtInChipsDir ''file:///other/x/y/Z.hdl'')
   \<and> walk_fails project (baseDir ''file:///proj/c/d/Z.hdl'')
   \<and> (\<exists>msg p no.
         fst (OnDidOpenTextDocument project ''file:///other/x/y/Z.hdl'' mux_source 1 fresh_server) =
           Inl (Wrapped msg (Wrapped ''error walking dir'' (PathError p no)))
         \<and> outbox (snd (OnDidOpenTextDocument project ''file:///other/x/y/Z.hdl'' mux_source 1 fresh_server)) = [])
   \<and> (\<exists>msg p no.
         fst (OnDidOpenTextDocument project ''file:///proj/c/d/Z.hdl'' mux_source 1 fresh_server) =
           Inl (Wrapped msg (Wrapped ''error walking dir'' (PathError p no)))
         \<and> outbox (snd (OnDidOpenTextDocument project ''file:///proj/c/d/Z.hdl'' mux_source 1 fresh_server)) = [])"
proof -
  have one: "walk_fails project (builtInChipsDir ''file:///other/x/y/Z.hdl'')"
    by code_simp
  have two: "walk_fails project (baseDir ''file:///proj/c/d/Z.hdl'')"
    by code_simp
  have empty: "outbox fresh_server = []"
    by (simp add: fresh_server_def)
  show ?thesis
    using one two empty
      open_aborts_when_walk_fails [OF disjI1 [OF one], of mux_source 1 fresh_server]
      open_aborts_when_walk_fails [OF disjI2 [OF two], of mux_source 1 fresh_server]
    by auto
qed

subsection \<open>URIs and paths\<close>

lemma ishex_space [simp]: "\<not> ishex (CHR '' '')" "\<not> ishex (CHR ''+'')"
  by (simp_all add: ishex_def)











subsection \<open>The diagnostic walk\<close>

text \<open>The walk visits the nodes in pre-order over named children, and stops at a panic.\<close>

lemma visit_each_append:
  "visit_each chips source (xs @ ys) vars =
     bind (visit_each chips source xs vars) (visit_each chips source ys)"
proof (induction xs arbitrary: vars)
  case Nil
  show ?case by (simp add: bind_def)
next
  case (Cons x xs)
  show ?case
    by (cases "visit chips source x vars") (simp_all add: bind_def Cons.IH)
qed

lemma walk_preorder:
  "walk chips source n vars = visit_each chips source (preorder n) vars"
  "walk_children chips source cs vars = visit_each chips source (preorder_children cs) vars"
proof (induction n and cs arbitrary: vars and vars rule: preorder_preorder_children.induct)
  case (1 k nm er f sb eb sp ep cs)
  show ?case
    by (cases "visit chips source (Node k nm er f sb eb sp ep cs) vars")
       (simp_all add: bind_def "1.IH")
next
  case 2
  show ?case by simp
next
  case (3 c cs)
  show ?case
  proof (cases "IsNamed c")
    case True
    with "3.IH"(1,2) show ?thesis
      by (cases "visit_each chips source (preorder c) vars")
         (simp_all add: visit_each_append bind_def)
  next
    case False
    with "3.IH"(3) show ?thesis by simp
  qed
qed

lemma newDiagnostic_Some:
  "newDiagnostic (Some nd) msg =
     Inr \<lparr>Range = range_of (StartPosition nd, EndPosition nd),
          Severity = DiagnosticSeverityError, Message = msg\<rparr>"
  by (simp add: newDiagnostic_def range_of_def)

text \<open>The two checks of the chip name, at any point of the walk.\<close>

lemma chip_name_rule_appends:
  assumes part: "TrimSpace (Kind n) = nodeKindPart"
    and name: "ChildByFieldName n ''chip_name'' = Some name"
    and referenced: "slice_bytes source (StartByte name) (EndByte name) = Inr referenced"
  shows "chip_name_rule chips source n (current, diagnostics) =
           Inr (current,
                diagnostics
                @ (if referenced = current
                   then [\<lparr>Range = range_of (StartPosition name, EndPosition name),
                          Severity = DiagnosticSeverityError,
                          Message = ''Cannot use chip '' @ referenced @ '' to implement itself''\<rparr>]
                   else [])
                @ (if referenced \<notin> chips
                   then [\<lparr>Range = range_of (StartPosition name, EndPosition name),
                          Severity = DiagnosticSeverityError,
                          Message = ''Undefined chip name: '' @ referenced\<rparr>]
                   else []))
         \<and> visit chips source n (current, diagnostics) =
             bind (chip_name_rule chips source n (current, diagnostics))
               (\<lambda>vars. bind (error_scan source (Children n) (snd vars))
                          (\<lambda>diagnostics'. Inr (fst vars, diagnostics')))"
proof -
  have "nodeKindPart \<noteq> nodeKindChipDefinition"
    by (simp add: nodeKindPart_def nodeKindChipDefinition_def)
  with part have "visit chips source n (current, diagnostics) =
      part_rule chips source n (current, diagnostics)"
    by (simp add: visit_def)
  moreover have "chip_name_rule chips source n (current, diagnostics) =
           Inr (current,
                diagnostics
                @ (if referenced = current
                   then [\<lparr>Range = range_of (StartPosition name, EndPosition name),
                          Severity = DiagnosticSeverityError,
                          Message = ''Cannot use chip '' @ referenced @ '' to implement itself''\<rparr>]
                   else [])
                @ (if referenced \<notin> chips
                   then [\<lparr>Range = range_of (StartPosition name, EndPosition name),
                          Severity = DiagnosticSeverityError,
                          Message = ''Undefined chip name: '' @ referenced\<rparr>]
                   else []))"
    using name referenced
    by (simp add: chip_name_rule_def bind_def newDiagnostic_Some msg_self_def msg_undefined_def)
  ultimately show ?thesis
    by (simp add: part_rule_def)
qed


text \<open>
  The scan for error children looks at the first error child only. When that child has a
  second child, the scan appends at most the one diagnostic anchored there.
\<close>

lemma error_scan_first:
  "error_scan source children diagnostics =
     (case find IsError children of
        None \<Rightarrow> Inr diagnostics
      | Some child \<Rightarrow>
          bind (slice_bytes source (StartByte child) (EndByte child))
            (\<lambda>childText.
               if HasPrefix (TrimSpace childText) '')''
               then bind (newDiagnostic (Child child 1) msg_semicolon)
                      (\<lambda>d. Inr (diagnostics @ [d]))
               else Inr diagnostics))"
  by (induction children) simp_all

lemma error_scan_emits:
  assumes "find IsError children = Some child"
    and "slice_bytes source (StartByte child) (EndByte child) = Inr childText"
    and "Child child 1 = Some anchor"
  shows "error_scan source children diagnostics =
           Inr (diagnostics @
                (if HasPrefix (TrimSpace childText) '')''
                 then [\<lparr>Range = range_of (StartPosition anchor, EndPosition anchor),
                        Severity = DiagnosticSeverityError, Message = msg_semicolon\<rparr>]
                 else []))"
  using assms
  by (simp add: error_scan_first bind_def newDiagnostic_def range_of_def)

lemma error_scan_nil_anchor:
  assumes "find IsError children = Some child"
    and "slice_bytes source (StartByte child) (EndByte child) = Inr childText"
    and "HasPrefix (TrimSpace childText) '')''"
    and "length (Children child) < 2"
  shows "error_scan source children diagnostics = Inl PanicNilDereference"
  using assms
  by (simp add: error_scan_first bind_def newDiagnostic_def Child_def)


text \<open>What a visit can do: fail with one of two panics, or add diagnostics and keep or set the name.\<close>

lemma slice_bytes_failure: "slice_bytes source a b = Inl e \<Longrightarrow> e = PanicSliceBounds"
  by (simp add: slice_bytes_def split: if_splits)

lemma newDiagnostic_failure: "newDiagnostic n msg = Inl e \<Longrightarrow> e = PanicNilDereference"
  by (simp add: newDiagnostic_def split: option.splits)

lemma definition_rule_result:
  "definition_rule source m (c, ds) = Inl e \<Longrightarrow> e = PanicSliceBounds"
  "definition_rule source m (c, ds) = Inr (c', ds') \<Longrightarrow>
     ds' = ds \<and> c' = (if ChildByFieldName m ''name'' = None then c else name_text source m)"
  by (auto simp: definition_rule_def bind_def name_text_def
      dest: slice_bytes_failure split: option.splits sum.splits)

lemma chip_name_rule_result:
  "chip_name_rule chips source m (c, ds) = Inl e \<Longrightarrow> e = PanicSliceBounds"
  "chip_name_rule chips source m (c, ds) = Inr (c', ds') \<Longrightarrow> c' = c \<and> (\<exists>extra. ds' = ds @ extra)"
  by (auto simp: chip_name_rule_def bind_def newDiagnostic_Some
      dest: slice_bytes_failure split: option.splits sum.splits if_splits)

lemma error_scan_result:
  "error_scan source cs ds = Inl e \<Longrightarrow> e = PanicSliceBounds \<or> e = PanicNilDereference"
  "error_scan source cs ds = Inr ds' \<Longrightarrow> \<exists>extra. ds' = ds @ extra"
  by (auto simp: error_scan_first bind_def
      dest: slice_bytes_failure newDiagnostic_failure split: option.splits sum.splits if_splits)

lemma part_rule_result:
  "part_rule chips source m (c, ds) = Inl e \<Longrightarrow> e = PanicSliceBounds \<or> e = PanicNilDereference"
  "part_rule chips source m (c, ds) = Inr (c', ds') \<Longrightarrow> c' = c \<and> (\<exists>extra. ds' = ds @ extra)"
proof -
  assume "part_rule chips source m (c, ds) = Inl e"
  then show "e = PanicSliceBounds \<or> e = PanicNilDereference"
    by (cases "chip_name_rule chips source m (c, ds)")
       (auto simp: part_rule_def bind_def
         dest: chip_name_rule_result(1) error_scan_result(1) split: sum.splits)
next
  assume ok: "part_rule chips source m (c, ds) = Inr (c', ds')"
  then obtain c1 d1 where first: "chip_name_rule chips source m (c, ds) = Inr (c1, d1)"
    by (cases "chip_name_rule chips source m (c, ds)") (auto simp: part_rule_def bind_def)
  with ok have scan: "error_scan source (Children m) d1 = Inr ds'" and c1: "c' = c1"
    by (auto simp: part_rule_def bind_def split: sum.splits)
  from chip_name_rule_result(2) [OF first] error_scan_result(2) [OF scan] c1
  show "c' = c \<and> (\<exists>extra. ds' = ds @ extra)" by auto
qed

lemma kinds_differ: "nodeKindPart \<noteq> nodeKindChipDefinition"
  by (simp add: nodeKindPart_def nodeKindChipDefinition_def)

lemma visit_result:
  "visit chips source m (c, ds) = Inl e \<Longrightarrow> e = PanicSliceBounds \<or> e = PanicNilDereference"
  "visit chips source m (c, ds) = Inr (c', ds') \<Longrightarrow>
     (\<exists>extra. ds' = ds @ extra) \<and> c' = (if defines_name m then name_text source m else c)"
proof -
  assume "visit chips source m (c, ds) = Inl e"
  then show "e = PanicSliceBounds \<or> e = PanicNilDereference"
    by (auto simp: visit_def dest: definition_rule_result(1) part_rule_result(1) split: if_splits)
next
  assume ok: "visit chips source m (c, ds) = Inr (c', ds')"
  show "(\<exists>extra. ds' = ds @ extra) \<and> c' = (if defines_name m then name_text source m else c)"
  proof (cases "TrimSpace (Kind m) = nodeKindChipDefinition")
    case True
    with ok have "definition_rule source m (c, ds) = Inr (c', ds')" by (simp add: visit_def)
    from definition_rule_result(2) [OF this] True show ?thesis
      by (auto simp: defines_name_def)
  next
    case False
    then have no: "\<not> defines_name m" by (simp add: defines_name_def)
    show ?thesis
    proof (cases "TrimSpace (Kind m) = nodeKindPart")
      case True
      with ok False have "part_rule chips source m (c, ds) = Inr (c', ds')" by (simp add: visit_def)
      from part_rule_result(2) [OF this] no show ?thesis by simp
    next
      case other: False
      with ok False no show ?thesis by (simp add: visit_def)
    qed
  qed
qed

lemma visit_each_snoc:
  "visit_each chips source (ms @ [m]) v =
     bind (visit_each chips source ms v) (visit chips source m)"
  by (cases "visit_each chips source ms v")
     (auto simp: visit_each_append bind_def split: sum.splits)

lemma visit_each_failure:
  "visit_each chips source ms v = Inl e \<Longrightarrow> e = PanicSliceBounds \<or> e = PanicNilDereference"
proof (induction ms arbitrary: v)
  case Nil
  then show ?case by simp
next
  case (Cons m ms)
  show ?case
  proof (cases "visit chips source m v")
    case (Inl e')
    with Cons.prems have "e' = e" by (simp add: bind_def)
    with Inl visit_result(1) [of chips source m "fst v" "snd v" e] show ?thesis by simp
  next
    case (Inr v')
    with Cons.prems have "visit_each chips source ms v' = Inl e" by (simp add: bind_def)
    then show ?thesis by (rule Cons.IH)
  qed
qed

lemma visit_each_keeps:
  "visit_each chips source ms (c, ds) = Inr (c', ds') \<Longrightarrow>
     (\<exists>extra. ds' = ds @ extra)
     \<and> c' = (case rev (filter defines_name ms) of [] \<Rightarrow> c | d # rest \<Rightarrow> name_text source d)"
proof (induction ms arbitrary: c' ds' rule: rev_induct)
  case Nil
  then show ?case by simp
next
  case (snoc m ms)
  from snoc.prems [unfolded visit_each_snoc] obtain c1 d1 where
    first: "visit_each chips source ms (c, ds) = Inr (c1, d1)"
    and last: "visit chips source m (c1, d1) = Inr (c', ds')"
    by (cases "visit_each chips source ms (c, ds)") (auto simp: bind_def)
  from snoc.IH [OF first] visit_result(2) [OF last]
  show ?case by (auto split: list.splits)
qed

lemma error_scan_without_second_child:
  assumes "find IsError children = Some child"
    and "slice_bytes source (StartByte child) (EndByte child) = Inr childText"
    and "HasPrefix (TrimSpace childText) '')''"
    and "Child child 1 = None"
  shows "error_scan source children diagnostics = Inl PanicNilDereference"
  using assms by (simp add: error_scan_first bind_def newDiagnostic_def)

lemma visit_each_member_fails:
  assumes "n \<in> set ms"
    and "\<And>v. \<exists>e. visit chips source n v = Inl e"
  shows "\<exists>e. visit_each chips source ms v = Inl e"
  using assms(1)
proof (induction ms arbitrary: v)
  case Nil
  then show ?case by simp
next
  case (Cons m ms)
  show ?case
  proof (cases "visit chips source m v")
    case (Inl e)
    then show ?thesis by (simp add: bind_def)
  next
    case (Inr v')
    with assms(2) [of v] have "m \<noteq> n" by auto
    with Cons.prems have "n \<in> set ms" by simp
    from Cons.IH [OF this, of v'] Inr show ?thesis by (simp add: bind_def)
  qed
qed

text \<open>
  C4, and where the code departs from it. Let the walk reach a \<^verbatim>\<open>part\<close> node \<open>n\<close> whose
  \<^verbatim>\<open>chip_name\<close> field is present with the text \<open>referenced\<close>, the visits before it having
  left the name \<open>current\<close> and the diagnostics \<open>diagnostics\<close>. Then \<open>current\<close> is the name
  of the last \<^verbatim>\<open>chip_definition\<close> with a name visited so far (empty when there is none),
  and the two checks append the self-reference diagnostic exactly when \<open>referenced\<close> is
  \<open>current\<close> and, independently, the undefined-chip diagnostic exactly when \<open>referenced\<close>
  is not in the catalog, both at the range of the \<^verbatim>\<open>chip_name\<close> node. When the walk
  completes, these diagnostics stand in its result at that place, and the result is what
  the transport is handed. When the first error child of \<open>n\<close> begins with a closing
  parenthesis and has no second child, the walk panics instead and none of them is
  published.
\<close>

theorem name_diagnostics_at_visited_part:
  assumes order: "preorder (Parse w source) = before @ n # after"
    and before: "visit_each (implementedChips sv) source before ([], []) = Inr (current, diagnostics)"
    and part: "TrimSpace (Kind n) = nodeKindPart"
    and name: "ChildByFieldName n ''chip_name'' = Some name"
    and referenced: "slice_bytes source (StartByte name) (EndByte name) = Inr referenced"
  shows "current = defining_name source before
    \<and> chip_name_rule (implementedChips sv) source n (current, diagnostics) =
        Inr (current,
             diagnostics @ name_diagnostics (implementedChips sv) current name referenced)
    \<and> (walk (implementedChips sv) source (Parse w source) ([], []) = Inr final \<longrightarrow>
        (\<exists>rest. snd final =
           diagnostics @ name_diagnostics (implementedChips sv) current name referenced @ rest)
        \<and> (SendNotification w \<lparr>Uri = uri, Version = version, Diagnostics = snd final\<rparr> = None \<longrightarrow>
             publishDiagnostics w source uri version sv =
               (Inr (),
                sv\<lparr>outbox := outbox sv
                       @ [\<lparr>Uri = uri, Version = version, Diagnostics = snd final\<rparr>]\<rparr>)))
    \<and> (find IsError (Children n) = Some child
        \<and> slice_bytes source (StartByte child) (EndByte child) = Inr childText
        \<and> HasPrefix (TrimSpace childText) '')'' \<and> Child child 1 = None \<longrightarrow>
        publishDiagnostics w source uri version sv = (Inl PanicNilDereference, sv))"
proof -
  let ?chips = "implementedChips sv"
  let ?emitted = "name_diagnostics ?chips current name referenced"
  have current: "current = defining_name source before"
    using visit_each_keeps [OF before] by (simp add: defining_name_def)
  have names: "chip_name_rule ?chips source n (current, diagnostics) =
      Inr (current, diagnostics @ ?emitted)"
    using chip_name_rule_appends [OF part name referenced, of ?chips current diagnostics]
    by (simp add: name_diagnostics_def)
  have at_n: "visit ?chips source n (current, diagnostics) =
      bind (error_scan source (Children n) (diagnostics @ ?emitted))
        (\<lambda>ds. Inr (current, ds))"
    using part kinds_differ names
    by (simp add: visit_def part_rule_def bind_def split: sum.splits)
  have whole: "walk ?chips source (Parse w source) ([], []) =
      bind (visit ?chips source n (current, diagnostics)) (visit_each ?chips source after)"
    using before by (simp add: walk_preorder(1) order visit_each_append bind_def)
  have completes: "\<exists>rest. snd final = diagnostics @ ?emitted @ rest"
    if "walk ?chips source (Parse w source) ([], []) = Inr final"
  proof -
    from that whole obtain scanned where
      scan: "error_scan source (Children n) (diagnostics @ ?emitted) = Inr scanned"
      and rest: "visit_each ?chips source after (current, scanned) = Inr (fst final, snd final)"
      by (auto simp: at_n bind_def split: sum.splits)
    from error_scan_result(2) [OF scan] visit_each_keeps [OF rest]
    show ?thesis by auto
  qed
  have published: "publishDiagnostics w source uri version sv =
      (Inr (), sv\<lparr>outbox := outbox sv
                     @ [\<lparr>Uri = uri, Version = version, Diagnostics = snd final\<rparr>]\<rparr>)"
    if "walk ?chips source (Parse w source) ([], []) = Inr final"
      and "SendNotification w \<lparr>Uri = uri, Version = version, Diagnostics = snd final\<rparr> = None"
    using that by (simp add: publishDiagnostics_def)
  have panics: "publishDiagnostics w source uri version sv = (Inl PanicNilDereference, sv)"
    if "find IsError (Children n) = Some child"
      and "slice_bytes source (StartByte child) (EndByte child) = Inr childText"
      and "HasPrefix (TrimSpace childText) '')''" and "Child child 1 = None"
  proof -
    from error_scan_without_second_child [OF that, of "diagnostics @ ?emitted"]
    have "walk ?chips source (Parse w source) ([], []) = Inl PanicNilDereference"
      by (simp add: whole at_n bind_def)
    then show ?thesis by (simp add: publishDiagnostics_def)
  qed
  from current names completes published panics show ?thesis by blast
qed

text \<open>
  C4 on the project. In the chip \<^verbatim>\<open>Xor\<close> that instantiates itself, with \<^verbatim>\<open>Xor\<close> not in
  the catalog, both diagnostics are published. In the document with the extra closing
  parenthesis, with \<^verbatim>\<open>DMux\<close> not in the catalog, nothing is published.
\<close>

theorem name_diagnostics_at_visited_part_witness:
  "preorder (Parse project xor_source) =
     visited_before xor_part xor_tree @ xor_part # visited_after xor_part xor_tree
   \<and> visit_each {''DMux''} xor_source (visited_before xor_part xor_tree) ([], []) = Inr (''Xor'', [])
   \<and> TrimSpace (Kind xor_part) = nodeKindPart
   \<and> ChildByFieldName xor_part ''chip_name'' = Some (leaf ''identifier'' (Some ''chip_name'') 53 5 4 3)
   \<and> slice_bytes xor_source 53 56 = Inr ''Xor''
   \<and> defining_name xor_source (visited_before xor_part xor_tree) = ''Xor''
   \<and> outbox (snd (publishDiagnostics project xor_source xor_uri 1
                    (fresh_server\<lparr>implementedChips := {''DMux''}\<rparr>))) =
       [\<lparr>Uri = xor_uri, Version = 1,
         Diagnostics =
           [\<lparr>Range = \<lparr>Start = \<lparr>Line = 5, Character = 4\<rparr>, End = \<lparr>Line = 5, Character = 7\<rparr>\<rparr>,
             Severity = 1, Message = ''Cannot use chip Xor to implement itself''\<rparr>,
            \<lparr>Range = \<lparr>Start = \<lparr>Line = 5, Character = 4\<rparr>, End = \<lparr>Line = 5, Character = 7\<rparr>\<rparr>,
             Severity = 1, Message = ''Undefined chip name: Xor''\<rparr>]\<rparr>]
   \<and> preorder (Parse project paren_source) =
       visited_before paren_part paren_tree @ paren_part # visited_after paren_part paren_tree
   \<and> visit_each {} paren_source (visited_before paren_part paren_tree) ([], []) = Inr (''Mux'', [])
   \<and> find IsError (Children paren_part) = Some paren_error
   \<and> Child paren_error 1 = None
   \<and> publishDiagnostics project paren_source mux_uri 2 fresh_server =
       (Inl PanicNilDereference, fresh_server)"
proof -
  let ?sv = "fresh_server\<lparr>implementedChips := {''DMux''}\<rparr>"
  let ?name = "leaf ''identifier'' (Some ''chip_name'') 53 5 4 3"
  let ?self = "\<lparr>Range = \<lparr>Start = \<lparr>Line = 5, Character = 4\<rparr>, End = \<lparr>Line = 5, Character = 7\<rparr>\<rparr>,
             Severity = 1, Message = ''Cannot use chip Xor to implement itself''\<rparr>"
  let ?undefined = "\<lparr>Range = \<lparr>Start = \<lparr>Line = 5, Character = 4\<rparr>, End = \<lparr>Line = 5, Character = 7\<rparr>\<rparr>,
             Severity = 1, Message = ''Undefined chip name: Xor''\<rparr>"
  have chips: "implementedChips ?sv = {''DMux''}" "outbox ?sv = []"
    by (simp_all add: fresh_server_def)
  have order: "preorder (Parse project xor_source) =
      visited_before xor_part xor_tree @ xor_part # visited_after xor_part xor_tree"
    by code_simp
  have before: "visit_each {''DMux''} xor_source (visited_before xor_part xor_tree) ([], []) =
      Inr (''Xor'', [])"
    by code_simp
  have part: "TrimSpace (Kind xor_part) = nodeKindPart"
    by code_simp
  have name: "ChildByFieldName xor_part ''chip_name'' = Some ?name"
    by code_simp
  have bytes: "StartByte ?name = 53" "EndByte ?name = 56"
    by (simp_all add: leaf_def)
  have referenced: "slice_bytes xor_source 53 56 = Inr ''Xor''"
    by code_simp
  have completes: "walk {''DMux''} xor_source (Parse project xor_source) ([], []) =
      Inr (''Xor'', [?self, ?undefined])"
    by code_simp
  have sends: "SendNotification project params = None" for params
    by (simp add: project_def)
  note xor = name_diagnostics_at_visited_part
    [where w = project and source = xor_source and n = xor_part and sv = ?sv
       and current = "''Xor''" and diagnostics = "[]" and name = ?name
       and referenced = "''Xor''" and final = "(''Xor'', [?self, ?undefined])"
       and uri = xor_uri and version = 1,
     unfolded chips bytes, OF order before part name referenced]
  from xor have current: "''Xor'' = defining_name xor_source (visited_before xor_part xor_tree)"
    by (rule conjunct1)
  from xor completes sends
  have "publishDiagnostics project xor_source xor_uri 1 ?sv =
      (Inr (), ?sv\<lparr>outbox := outbox ?sv
          @ [\<lparr>Uri = xor_uri, Version = 1, Diagnostics = snd (''Xor'', [?self, ?undefined])\<rparr>]\<rparr>)"
    by (simp only: snd_conv chips simp_thms)
  then have published: "outbox (snd (publishDiagnostics project xor_source xor_uri 1 ?sv)) =
      [\<lparr>Uri = xor_uri, Version = 1, Diagnostics = [?self, ?undefined]\<rparr>]"
    by (simp add: chips)
  have order': "preorder (Parse project paren_source) =
      visited_before paren_part paren_tree @ paren_part # visited_after paren_part paren_tree"
    by code_simp
  have before': "visit_each {} paren_source (visited_before paren_part paren_tree) ([], []) =
      Inr (''Mux'', [])"
    by code_simp
  have part': "TrimSpace (Kind paren_part) = nodeKindPart"
    by code_simp
  let ?name' = "leaf ''identifier'' (Some ''chip_name'') 50 5 4 4"
  have name': "ChildByFieldName paren_part ''chip_name'' = Some ?name'"
    by code_simp
  have referenced': "slice_bytes paren_source (StartByte ?name') (EndByte ?name') = Inr ''DMux''"
    by code_simp
  have first_error: "find IsError (Children paren_part) = Some paren_error"
    by code_simp
  have child_text:
    "slice_bytes paren_source (StartByte paren_error) (EndByte paren_error) = Inr '')''"
    by code_simp
  have paren: "HasPrefix (TrimSpace '')'') '')''"
    by code_simp
  have no_second: "Child paren_error 1 = None"
    by code_simp
  have chips': "implementedChips fresh_server = {}"
    by (simp add: fresh_server_def)
  note paren_case = name_diagnostics_at_visited_part
    [where w = project and source = paren_source and n = paren_part and sv = fresh_server
       and current = "''Mux''" and diagnostics = "[]" and name = ?name'
       and referenced = "''DMux''" and child = paren_error and childText = "'')''"
       and uri = mux_uri and version = 2,
     unfolded chips', OF order' before' part' name' referenced']
  from paren_case first_error child_text paren no_second
  have panics: "publishDiagnostics project paren_source mux_uri 2 fresh_server =
      (Inl PanicNilDereference, fresh_server)"
    by (simp only: simp_thms)
  from order before part name referenced current [symmetric] published
    order' before' first_error no_second panics
  show ?thesis by (intro conjI)
qed

text \<open>
  C5, where the code departs from it. Whenever the tree of a document holds, among the
  nodes the walk visits, a \<^verbatim>\<open>part\<close> whose first error child begins with a closing
  parenthesis and has no second child, \<^verbatim>\<open>child.Child(1)\<close> is nil and \<^verbatim>\<open>newDiagnostic\<close>
  dereferences it: \<^verbatim>\<open>publishDiagnostics\<close>, and with it the change handler, ends in a panic
  and nothing is published, where one diagnostic is due.
\<close>

theorem analysis_panics_on_error_child_without_second_child:
  assumes visited: "n \<in> set (preorder (Parse w source))"
    and part: "TrimSpace (Kind n) = nodeKindPart"
    and first_error: "find IsError (Children n) = Some child"
    and child_text: "slice_bytes source (StartByte child) (EndByte child) = Inr childText"
    and paren: "HasPrefix (TrimSpace childText) '')''"
    and no_second: "Child child 1 = None"
  shows "\<exists>e. is_panic e
           \<and> publishDiagnostics w source uri version sv = (Inl e, sv)
           \<and> OnDidChangeTextDocument w uri version (Some source # changes) sv = (Inl e, sv)"
proof -
  let ?chips = "implementedChips sv"
  have at_n: "\<exists>e. visit ?chips source n v = Inl e" for v
  proof (cases "chip_name_rule ?chips source n v")
    case (Inl e)
    with part kinds_differ show ?thesis
      by (simp add: visit_def part_rule_def bind_def)
  next
    case (Inr v')
    with part kinds_differ
      error_scan_without_second_child [OF first_error child_text paren no_second, of "snd v'"]
    show ?thesis
      by (simp add: visit_def part_rule_def bind_def)
  qed
  from visit_each_member_fails [OF visited at_n, of "([], [])"]
  obtain e where e: "walk ?chips source (Parse w source) ([], []) = Inl e"
    by (auto simp: walk_preorder(1))
  then have "visit_each ?chips source (preorder (Parse w source)) ([], []) = Inl e"
    by (simp add: walk_preorder(1))
  from visit_each_failure [OF this] have "is_panic e" by auto
  moreover from e have pub: "publishDiagnostics w source uri version sv = (Inl e, sv)"
    by (simp add: publishDiagnostics_def)
  moreover from pub
  have "OnDidChangeTextDocument w uri version (Some source # changes) sv = (Inl e, sv)"
    by simp
  ultimately show ?thesis by blast
qed

text \<open>
  C5 on the project: in \<^verbatim>\<open>DMux(in=a, a=out));\<close> the skipped second parenthesis is the
  part's first error child, and its only child is the parenthesis itself.
\<close>

theorem analysis_panics_on_error_child_without_second_child_witness:
  "paren_part \<in> set (preorder (Parse project paren_source))
   \<and> TrimSpace (Kind paren_part) = nodeKindPart
   \<and> find IsError (Children paren_part) = Some paren_error
   \<and> slice_bytes paren_source (StartByte paren_error) (EndByte paren_error) = Inr '')''
   \<and> HasPrefix (TrimSpace '')'') '')''
   \<and> Child paren_error 1 = None
   \<and> (\<exists>e. is_panic e
         \<and> publishDiagnostics project paren_source mux_uri 2 fresh_server = (Inl e, fresh_server)
         \<and> OnDidChangeTextDocument project mux_uri 2 [Some paren_source] fresh_server =
             (Inl e, fresh_server))"
proof -
  have visited: "paren_part \<in> set (preorder (Parse project paren_source))"
    by code_simp
  have part: "TrimSpace (Kind paren_part) = nodeKindPart"
    by code_simp
  have first_error: "find IsError (Children paren_part) = Some paren_error"
    by code_simp
  have child_text:
    "slice_bytes paren_source (StartByte paren_error) (EndByte paren_error) = Inr '')''"
    by code_simp
  have paren: "HasPrefix (TrimSpace '')'') '')''"
    by code_simp
  have no_second: "Child paren_error 1 = None"
    by code_simp
  from analysis_panics_on_error_child_without_second_child
    [OF visited part first_error child_text paren no_second, of mux_uri 2 fresh_server "[]"]
  have "\<exists>e. is_panic e
         \<and> publishDiagnostics project paren_source mux_uri 2 fresh_server = (Inl e, fresh_server)
         \<and> OnDidChangeTextDocument project mux_uri 2 [Some paren_source] fresh_server =
             (Inl e, fresh_server)" .
  with visited part first_error child_text paren no_second show ?thesis
    by (intro conjI)
qed

subsection \<open>The definition resolver\<close>

text \<open>
  The resolver's walk keeps the name span of the last \<^verbatim>\<open>chip_definition\<close> with a name
  that it visits in pre-order, or its initial positions when there is none.
\<close>

lemma walk_definition_preorder:
  "walk_definition n positions = foldl (\<lambda>p m. capture m p) positions (preorder n)"
  "walk_definition_children cs positions =
     foldl (\<lambda>p m. capture m p) positions (preorder_children cs)"
proof (induction n and cs arbitrary: positions and positions
    rule: preorder_preorder_children.induct)
  case (1 k nm er f sb eb sp ep cs)
  show ?case by (simp add: "1.IH")
next
  case 2
  show ?case by simp
next
  case (3 c cs)
  then show ?case by simp
qed

lemma capture_cases:
  "defines_name m \<Longrightarrow> capture m p = capture m q"
  "\<not> defines_name m \<Longrightarrow> capture m p = p"
  by (auto simp: capture_def defines_name_def split: option.splits)

lemma foldl_capture:
  "foldl (\<lambda>p m. capture m p) positions ns =
     (case rev (filter defines_name ns) of
        [] \<Rightarrow> positions
      | d # ds \<Rightarrow> capture d positions)"
proof (induction ns rule: rev_induct)
  case Nil
  show ?case by simp
next
  case (snoc m ns)
  show ?case
  proof (cases "defines_name m")
    case True
    then show ?thesis
      using capture_cases(1) [OF True, of "foldl (\<lambda>p m. capture m p) positions ns" positions]
      by simp
  next
    case False
    with snoc show ?thesis by (simp add: capture_cases(2))
  qed
qed

lemma last_definition_wins:
  "walk_definition n positions =
     (case rev (filter defines_name (preorder n)) of
        [] \<Rightarrow> positions
      | d # ds \<Rightarrow> capture d positions)"
  by (simp add: walk_definition_preorder(1) foldl_capture)

text \<open>
  C3. When the cursor is on an instantiation with a chip name and the request returns a
  result, the result is one location. It references the candidate in the document's own
  directory whenever \<^verbatim>\<open>os.Stat\<close> finds that candidate, whatever the built-in library
  holds; it references anything else, and then the built-in library file, only when
  \<^verbatim>\<open>os.Stat\<close> reports that the candidate does not exist.
\<close>

theorem definition_prefers_workspace:
  assumes cursor: "instantiation_at w uri position = Inr (Some (tree, chipName))"
    and returned: "OnDefinition w uri position = Inr result"
  shows "\<exists>link. result = Some [link]
           \<and> (Stat w (Join [baseDir uri, chipName @ ext]) = None \<longrightarrow>
                TargetUri link = ''file://'' @ Join [baseDir uri, chipName @ ext])
           \<and> (TargetUri link \<noteq> ''file://'' @ Join [baseDir uri, chipName @ ext] \<longrightarrow>
                TargetUri link = ''file://'' @ Join [builtInChipsDir uri, chipName @ ext]
                \<and> (\<exists>e. Stat w (Join [baseDir uri, chipName @ ext]) = Some e \<and> is_not_exist e))"
proof -
  let ?workspace = "Join [baseDir uri, chipName @ ext]"
  let ?builtin = "Join [builtInChipsDir uri, chipName @ ext]"
  have target: "target_of w uri chipName =
      (case Stat w ?workspace of
         Some e \<Rightarrow> if is_not_exist e then ?builtin else ?workspace
       | None \<Rightarrow> ?workspace)"
    by (simp add: target_of_def Let_def del: Join.simps)
  from cursor returned obtain targetSource where
    "readFile w (target_of w uri chipName) = Inr targetSource"
    and "result = Some [\<lparr>TargetUri = ''file://'' @ target_of w uri chipName,
        TargetRange = range_of (walk_definition tree (zero_point, zero_point)),
        TargetSelectionRange = range_of (walk_definition tree (zero_point, zero_point))\<rparr>]"
    by (auto simp: OnDefinition_def bind_def Let_def split: sum.splits)
  then show ?thesis
    using target by (auto simp del: Join.simps split: option.splits if_splits)
qed


text \<open>
  C3 on the project. Where \<^verbatim>\<open>DMux.hdl\<close> is in the document's directory and in the
  built-in library, the cursor on \<^verbatim>\<open>DMux\<close> leads to the file beside the document; for
  the copy of the document in \<^verbatim>\<open>/proj/c/d\<close>, which has no \<^verbatim>\<open>DMux.hdl\<close>, it leads to
  the built-in library.
\<close>

theorem definition_prefers_workspace_witness:
  "instantiation_at project mux_uri \<lparr>Line = 5, Character = 5\<rparr> = Inr (Some (mux_tree, ''DMux''))
   \<and> Stat project ''/proj/a/b/DMux.hdl'' = None
   \<and> Stat project ''/proj/tools/builtInChips/DMux.hdl'' = None
   \<and> (\<exists>link. OnDefinition project mux_uri \<lparr>Line = 5, Character = 5\<rparr> = Inr (Some [link])
         \<and> TargetUri link = ''file:///proj/a/b/DMux.hdl'')
   \<and> instantiation_at project ''file:///proj/c/d/Mux.hdl'' \<lparr>Line = 5, Character = 5\<rparr> =
       Inr (Some (mux_tree, ''DMux''))
   \<and> (\<exists>link. OnDefinition project ''file:///proj/c/d/Mux.hdl'' \<lparr>Line = 5, Character = 5\<rparr> =
           Inr (Some [link])
         \<and> TargetUri link = ''file:///proj/tools/builtInChips/DMux.hdl''
         \<and> (\<exists>e. Stat project ''/proj/c/d/DMux.hdl'' = Some e \<and> is_not_exist e))"
proof -
  have cursor: "instantiation_at project mux_uri \<lparr>Line = 5, Character = 5\<rparr> =
      Inr (Some (mux_tree, ''DMux''))"
    by code_simp
  have workspace: "Join [baseDir mux_uri, ''DMux'' @ ext] = ''/proj/a/b/DMux.hdl''"
    by code_simp
  have present: "Stat project ''/proj/a/b/DMux.hdl'' = None"
    by code_simp
  have builtin: "Stat project ''/proj/tools/builtInChips/DMux.hdl'' = None"
    by code_simp
  obtain result where returned:
    "OnDefinition project mux_uri \<lparr>Line = 5, Character = 5\<rparr> = Inr result"
  proof
    show "OnDefinition project mux_uri \<lparr>Line = 5, Character = 5\<rparr> =
      Inr (Some [\<lparr>TargetUri = ''file:///proj/a/b/DMux.hdl'',
                  TargetRange = \<lparr>Start = \<lparr>Line = 0, Character = 5\<rparr>,
                                  End = \<lparr>Line = 0, Character = 8\<rparr>\<rparr>,
                  TargetSelectionRange = \<lparr>Start = \<lparr>Line = 0, Character = 5\<rparr>,
                                           End = \<lparr>Line = 0, Character = 8\<rparr>\<rparr>\<rparr>])"
      by code_simp
  qed
  from definition_prefers_workspace [OF cursor returned]
  have first: "\<exists>link. OnDefinition project mux_uri \<lparr>Line = 5, Character = 5\<rparr> = Inr (Some [link])
         \<and> TargetUri link = ''file:///proj/a/b/DMux.hdl''"
  proof (elim exE conjE)
    fix link
    assume shape: "result = Some [link]"
      and uri: "Stat project (Join [baseDir mux_uri, ''DMux'' @ ext]) = None \<longrightarrow>
        TargetUri link = ''file://'' @ Join [baseDir mux_uri, ''DMux'' @ ext]"
    from uri [unfolded workspace, THEN mp, OF present]
    have "TargetUri link = ''file:///proj/a/b/DMux.hdl''" by simp
    moreover from returned shape
    have "OnDefinition project mux_uri \<lparr>Line = 5, Character = 5\<rparr> = Inr (Some [link])"
      by simp
    ultimately show ?thesis by (intro exI conjI)
  qed
  have cursor': "instantiation_at project ''file:///proj/c/d/Mux.hdl'' \<lparr>Line = 5, Character = 5\<rparr> =
      Inr (Some (mux_tree, ''DMux''))"
    by code_simp
  have workspace': "Join [baseDir ''file:///proj/c/d/Mux.hdl'', ''DMux'' @ ext] = ''/proj/c/d/DMux.hdl''"
    by code_simp
  have library': "Join [builtInChipsDir ''file:///proj/c/d/Mux.hdl'', ''DMux'' @ ext] =
      ''/proj/tools/builtInChips/DMux.hdl''"
    by code_simp
  have returned': "OnDefinition project ''file:///proj/c/d/Mux.hdl'' \<lparr>Line = 5, Character = 5\<rparr> =
      Inr (Some [\<lparr>TargetUri = ''file:///proj/tools/builtInChips/DMux.hdl'',
                  TargetRange = \<lparr>Start = \<lparr>Line = 0, Character = 5\<rparr>,
                                  End = \<lparr>Line = 0, Character = 8\<rparr>\<rparr>,
                  TargetSelectionRange = \<lparr>Start = \<lparr>Line = 0, Character = 5\<rparr>,
                                           End = \<lparr>Line = 0, Character = 8\<rparr>\<rparr>\<rparr>])"
    (is "_ = Inr (Some [?link])")
    by code_simp
  have elsewhere: "TargetUri ?link \<noteq> ''file://'' @ ''/proj/c/d/DMux.hdl''"
    by simp
  from definition_prefers_workspace [OF cursor' returned']
  have second: "\<exists>link. OnDefinition project ''file:///proj/c/d/Mux.hdl'' \<lparr>Line = 5, Character = 5\<rparr> =
           Inr (Some [link])
         \<and> TargetUri link = ''file:///proj/tools/builtInChips/DMux.hdl''
         \<and> (\<exists>e. Stat project ''/proj/c/d/DMux.hdl'' = Some e \<and> is_not_exist e)"
  proof (elim exE conjE)
    fix link
    assume shape: "Some [?link] = Some [link]"
      and fallback: "TargetUri link \<noteq>
          ''file://'' @ Join [baseDir ''file:///proj/c/d/Mux.hdl'', ''DMux'' @ ext] \<longrightarrow>
        TargetUri link = ''file://'' @ Join [builtInChipsDir ''file:///proj/c/d/Mux.hdl'', ''DMux'' @ ext]
        \<and> (\<exists>e. Stat project (Join [baseDir ''file:///proj/c/d/Mux.hdl'', ''DMux'' @ ext]) = Some e
               \<and> is_not_exist e)"
    from shape have same: "link = ?link" by simp
    from elsewhere same have "TargetUri link \<noteq> ''file://'' @ ''/proj/c/d/DMux.hdl''"
      by simp
    from fallback [unfolded workspace' library', THEN mp, OF this]
    have "TargetUri link = ''file:///proj/tools/builtInChips/DMux.hdl''"
      and "\<exists>e. Stat project ''/proj/c/d/DMux.hdl'' = Some e \<and> is_not_exist e"
      by simp_all
    moreover from returned' same
    have "OnDefinition project ''file:///proj/c/d/Mux.hdl'' \<lparr>Line = 5, Character = 5\<rparr> =
        Inr (Some [link])"
      by simp
    ultimately show ?thesis by (intro exI [where x = link] conjI)
  qed
  from cursor present builtin first cursor' second show ?thesis
    by (intro conjI)
qed

lemma instantiation_at_tree:
  assumes "instantiation_at w uri position = Inr (Some (tree, chipName))"
  shows "\<exists>source. readFile w uri = Inr source \<and> tree = Parse w source"
  using assms
  by (auto simp: instantiation_at_def bind_def Let_def
      split: sum.splits option.splits if_splits)

lemma OnDefinition_range:
  assumes "instantiation_at w uri position = Inr (Some (tree, chipName))"
    and "OnDefinition w uri position = Inr (Some [link])"
  shows "TargetRange link = range_of (walk_definition tree (zero_point, zero_point))
         \<and> TargetSelectionRange link = TargetRange link"
  using assms
  by (auto simp: OnDefinition_def bind_def Let_def split: sum.splits)

lemma OnDefinition_empty:
  assumes "readFile w uri = Inr source"
    and "getByteOffset source (sint (Line position)) (sint (Character position)) = Inr offset"
    and "Parent (DescendantForByteRange (Parse w source) (of_int offset) (of_int offset)) = Some node"
    and "TrimSuffix (Kind node) [newline] \<noteq> nodeKindPart
         \<or> ChildByFieldName node ''chip_name'' = None"
  shows "OnDefinition w uri position = Inr None"
  using assms
  by (auto simp: OnDefinition_def instantiation_at_def bind_def Let_def)

lemma OnDefinition_root:
  assumes "readFile w uri = Inr source"
    and "getByteOffset source (sint (Line position)) (sint (Character position)) = Inr offset"
    and "Parent (DescendantForByteRange (Parse w source) (of_int offset) (of_int offset)) = None"
  shows "OnDefinition w uri position = Inl PanicNilDereference"
  using assms
  by (simp add: OnDefinition_def instantiation_at_def bind_def Let_def)

text \<open>
  C1, where the code departs from it. When the cursor is on an instantiation and the
  target file is read, the request returns one location for the target file whose two
  ranges are equal and are the name span of the last \<^verbatim>\<open>chip_definition\<close> with a name in
  pre-order of the tree of the requesting document, which is the tree the second walk
  runs on. The text of the target has no part in the range.
\<close>

theorem definition_range_from_requesting_document:
  assumes cursor: "instantiation_at w uri position = Inr (Some (tree, chipName))"
    and target: "readFile w (target_of w uri chipName) = Inr targetSource"
  shows "\<exists>source.
           readFile w uri = Inr source \<and> tree = Parse w source
           \<and> OnDefinition w uri position =
               Inr (Some [\<lparr>TargetUri = ''file://'' @ target_of w uri chipName,
                           TargetRange =
                             range_of (walk_definition (Parse w source) (zero_point, zero_point)),
                           TargetSelectionRange =
                             range_of (walk_definition (Parse w source) (zero_point, zero_point))\<rparr>])
           \<and> walk_definition (Parse w source) (zero_point, zero_point) =
               (case rev (filter defines_name (preorder (Parse w source))) of
                  [] \<Rightarrow> (zero_point, zero_point)
                | d # ds \<Rightarrow> capture d (zero_point, zero_point))"
proof -
  from instantiation_at_tree [OF cursor] obtain source where
    source: "readFile w uri = Inr source" "tree = Parse w source"
    by blast
  from cursor target source(2)
  have "OnDefinition w uri position =
      Inr (Some [\<lparr>TargetUri = ''file://'' @ target_of w uri chipName,
                  TargetRange =
                    range_of (walk_definition (Parse w source) (zero_point, zero_point)),
                  TargetSelectionRange =
                    range_of (walk_definition (Parse w source) (zero_point, zero_point))\<rparr>])"
    by (simp add: OnDefinition_def bind_def Let_def)
  with source last_definition_wins [of "Parse w source" "(zero_point, zero_point)"]
  show ?thesis by blast
qed

text \<open>
  C1 on the project: the cursor is on \<^verbatim>\<open>DMux\<close> in \<^verbatim>\<open>Mux.hdl\<close>. The location references
  \<^verbatim>\<open>DMux.hdl\<close> with the range 0:5 to 0:8 of the name \<^verbatim>\<open>Mux\<close>; the name in \<^verbatim>\<open>DMux.hdl\<close>
  spans 0:5 to 0:9.
\<close>

theorem definition_range_from_requesting_document_witness:
  "instantiation_at project mux_uri \<lparr>Line = 5, Character = 5\<rparr> = Inr (Some (mux_tree, ''DMux''))
   \<and> readFile project (target_of project mux_uri ''DMux'') = Inr dmux_source
   \<and> OnDefinition project mux_uri \<lparr>Line = 5, Character = 5\<rparr> =
       Inr (Some [\<lparr>TargetUri = ''file:///proj/a/b/DMux.hdl'',
                   TargetRange = \<lparr>Start = \<lparr>Line = 0, Character = 5\<rparr>,
                                   End = \<lparr>Line = 0, Character = 8\<rparr>\<rparr>,
                   TargetSelectionRange = \<lparr>Start = \<lparr>Line = 0, Character = 5\<rparr>,
                                            End = \<lparr>Line = 0, Character = 8\<rparr>\<rparr>\<rparr>])
   \<and> range_of (walk_definition (Parse project dmux_source) (zero_point, zero_point)) =
       \<lparr>Start = \<lparr>Line = 0, Character = 5\<rparr>, End = \<lparr>Line = 0, Character = 9\<rparr>\<rparr>"
proof -
  have cursor: "instantiation_at project mux_uri \<lparr>Line = 5, Character = 5\<rparr> =
      Inr (Some (mux_tree, ''DMux''))"
    by code_simp
  have target: "readFile project (target_of project mux_uri ''DMux'') = Inr dmux_source"
    by code_simp
  have document: "readFile project mux_uri = Inr mux_source"
    by code_simp
  have path: "''file://'' @ target_of project mux_uri ''DMux'' = ''file:///proj/a/b/DMux.hdl''"
    by code_simp
  have here: "range_of (walk_definition (Parse project mux_source) (zero_point, zero_point)) =
      \<lparr>Start = \<lparr>Line = 0, Character = 5\<rparr>, End = \<lparr>Line = 0, Character = 8\<rparr>\<rparr>"
    by code_simp
  have there: "range_of (walk_definition (Parse project dmux_source) (zero_point, zero_point)) =
      \<lparr>Start = \<lparr>Line = 0, Character = 5\<rparr>, End = \<lparr>Line = 0, Character = 9\<rparr>\<rparr>"
    by code_simp
  from definition_range_from_requesting_document [OF cursor target]
  have "OnDefinition project mux_uri \<lparr>Line = 5, Character = 5\<rparr> =
       Inr (Some [\<lparr>TargetUri = ''file:///proj/a/b/DMux.hdl'',
                   TargetRange = \<lparr>Start = \<lparr>Line = 0, Character = 5\<rparr>,
                                   End = \<lparr>Line = 0, Character = 8\<rparr>\<rparr>,
                   TargetSelectionRange = \<lparr>Start = \<lparr>Line = 0, Character = 5\<rparr>,
                                            End = \<lparr>Line = 0, Character = 8\<rparr>\<rparr>\<rparr>])"
  proof (elim exE conjE)
    fix source
    assume "readFile project mux_uri = Inr source"
      and result: "OnDefinition project mux_uri \<lparr>Line = 5, Character = 5\<rparr> =
        Inr (Some [\<lparr>TargetUri = ''file://'' @ target_of project mux_uri ''DMux'',
                    TargetRange =
                      range_of (walk_definition (Parse project source) (zero_point, zero_point)),
                    TargetSelectionRange =
                      range_of (walk_definition (Parse project source) (zero_point, zero_point))\<rparr>])"
    with document have "source = mux_source" by simp
    with result show ?thesis
      by (simp only: path here)
  qed
  with cursor target there show ?thesis
    by (intro conjI)
qed

text \<open>A cursor at or past the end of every child of the root resolves to the root.\<close>

lemma descendant_is_root:
  "list_all (\<lambda>c. EndByte c \<le> s) (Children root) \<Longrightarrow> DescendantForByteRange root s s = [root]"
proof -
  have skip: "list_all (\<lambda>c. EndByte c \<le> s) cs \<Longrightarrow> descend_children path cs s s = path"
    for cs path
    by (induction cs) auto
  assume "list_all (\<lambda>c. EndByte c \<le> s) (Children root)"
  with skip [of "Children root" "[root]"] show ?thesis
    by (cases root) (simp add: DescendantForByteRange_def)
qed

text \<open>
  C6, where the code departs from it. With the cursor at the end of the text, or on a
  line past it, the node covering the offset is the root. It has no parent, hence no
  instantiation as its parent, and the request ends in a nil dereference instead of an
  empty result.
\<close>

theorem definition_at_root_panics:
  "getByteOffset mux_source 7 0 = Inr 71
   \<and> DescendantForByteRange (Parse project mux_source) 71 71 = [mux_tree]
   \<and> OnDefinition project mux_uri \<lparr>Line = 7, Character = 0\<rparr> = Inl PanicNilDereference
   \<and> OnDefinition project mux_uri \<lparr>Line = 9, Character = 0\<rparr> = Inl PanicNilDereference"
  by code_simp

end
